theory Spec2Isabelle
  imports Main "HOL-Library.AList"
begin

section \<open>JavaScript values\<close>

text \<open>
  The data handled by the program is JSON as parsed by the runtime, plus \<open>undefined\<close>.
  An object is its list of own properties in enumeration order (keys are unique in a
  JavaScript object; a read takes the first binding).  Numbers are modelled as integers:
  the only arithmetic of the modelled code is the comparison of two \<open>species_count\<close>
  values, every other number is copied unchanged.
\<close>

datatype jsval =
    JUndefined
  | JNull
  | JBool bool
  | JNum int
  | JStr string
  | JArr "jsval list"
  | JObj "(string \<times> jsval) list"

datatype error = TypeError | FetchError | WriteError

text \<open>Sequencing of computations that may throw.\<close>

definition bindE :: "error + 'a \<Rightarrow> ('a \<Rightarrow> error + 'b) \<Rightarrow> error + 'b" where
  "bindE m f = (case m of Inl e \<Rightarrow> Inl e | Inr v \<Rightarrow> f v)"

text \<open>\<open>xs.map(f)\<close> for a callback that may throw: the first exception ends the map.\<close>

fun mapE :: "('a \<Rightarrow> error + 'b) \<Rightarrow> 'a list \<Rightarrow> error + 'b list" where
  "mapE f [] = Inr []"
| "mapE f (x # xs) = bindE (f x) (\<lambda>y. bindE (mapE f xs) (\<lambda>ys. Inr (y # ys)))"

text \<open>ToBoolean: the falsy values are \<open>undefined\<close>, \<open>null\<close>, \<open>false\<close>, \<open>0\<close> and \<open>""\<close>.\<close>

fun truthy :: "jsval \<Rightarrow> bool" where
  "truthy JUndefined = False"
| "truthy JNull = False"
| "truthy (JBool b) = b"
| "truthy (JNum n) = (n \<noteq> 0)"
| "truthy (JStr s) = (s \<noteq> [])"
| "truthy (JArr xs) = True"
| "truthy (JObj kvs) = True"

fun nullish :: "jsval \<Rightarrow> bool" where
  "nullish JUndefined = True"
| "nullish JNull = True"
| "nullish v = False"

text \<open>\<open>a || b\<close> and \<open>a ?? b\<close> on values.\<close>

definition orElse :: "jsval \<Rightarrow> jsval \<Rightarrow> jsval" where
  "orElse a b = (if truthy a then a else b)"

definition nullishElse :: "jsval \<Rightarrow> jsval \<Rightarrow> jsval" where
  "nullishElse a b = (if nullish a then b else a)"

text \<open>\<open>Array.isArray(v)\<close> and \<open>typeof v === 'object'\<close> (which holds of \<open>null\<close> too).\<close>

fun isArray :: "jsval \<Rightarrow> bool" where
  "isArray (JArr xs) = True"
| "isArray v = False"

fun typeofObject :: "jsval \<Rightarrow> bool" where
  "typeofObject JNull = True"
| "typeofObject (JArr xs) = True"
| "typeofObject (JObj kvs) = True"
| "typeofObject v = False"

text \<open>
  \<open>rd v k\<close> is the property read \<open>v.k\<close> on a receiver that is not \<open>null\<close> or
  \<open>undefined\<close>.  The property names read by the modelled code are data field names
  (\<open>id\<close>, \<open>synonyms\<close>, \<open>url\<close>, \<open>name\<close>, \<open>cm\<close>, ...): none of them is an own or
  inherited property of an array, a string, a number or a boolean, so the read gives
  \<open>undefined\<close> there.  \<open>getProp\<close> is the read on any receiver: it throws a TypeError on
  \<open>null\<close> and \<open>undefined\<close>.  \<open>optChain\<close> is \<open>v?.k\<close>.
\<close>

fun rd :: "jsval \<Rightarrow> string \<Rightarrow> jsval" where
  "rd (JObj kvs) k = (case map_of kvs k of Some v \<Rightarrow> v | None \<Rightarrow> JUndefined)"
| "rd v k = JUndefined"

definition getProp :: "jsval \<Rightarrow> string \<Rightarrow> error + jsval" where
  "getProp v k = (if nullish v then Inl TypeError else Inr (rd v k))"

definition optChain :: "jsval \<Rightarrow> string \<Rightarrow> jsval" where
  "optChain v k = (if nullish v then JUndefined else rd v k)"

text \<open>\<open>obj[k] = v\<close> for an ordinary key (not \<open>__proto__\<close>): an existing key keeps its
  place, a new key is appended.\<close>

definition assign :: "string \<Rightarrow> jsval \<Rightarrow> (string \<times> jsval) list \<Rightarrow> (string \<times> jsval) list" where
  "assign k v kvs = AList.update k v kvs"

text \<open>Decimal rendering of a number inside a template literal or as an array index key.\<close>

definition digit :: "nat \<Rightarrow> char" where
  "digit d = ''0123456789'' ! d"

function decimal :: "nat \<Rightarrow> string" where
  "decimal n = (if n < 10 then [digit n] else decimal (n div 10) @ [digit (n mod 10)])"
  by pat_completeness auto
termination
  by (relation "measure id") auto

definition numToString :: "int \<Rightarrow> string" where
  "numToString i = (if i < 0 then CHR ''-'' # decimal (nat (- i)) else decimal (nat i))"

text \<open>
  \<open>Object.entries(v)\<close> on a non-nullish value, also the properties copied by the spread
  \<open>{...v}\<close>: the own properties of an object, the indexed elements of an array, the
  indexed characters of a string, nothing for the other values.
\<close>

fun entries :: "jsval \<Rightarrow> (string \<times> jsval) list" where
  "entries (JObj kvs) = kvs"
| "entries (JArr xs) = zip (map decimal [0..<length xs]) xs"
| "entries (JStr s) = zip (map decimal [0..<length s]) (map (\<lambda>c. JStr [c]) s)"
| "entries v = []"

text \<open>
  \<open>xs.slice(0, e)\<close> for an integer \<open>e\<close>: a negative end counts from the end of the
  array.
\<close>

definition slice0 :: "int \<Rightarrow> 'a list \<Rightarrow> 'a list" where
  "slice0 e xs = (if e < 0 then take (nat (int (length xs) + e)) xs else take (nat e) xs)"

section \<open>Collection trimmers (config.js)\<close>

text \<open>
  \<open>trimPlantSynonyms\<close>: a shallow copy of every plant, whose \<open>synonyms\<close> is cut to the
  first \<open>maxSynonyms\<close> entries when it is an array longer than that.
\<close>

definition trimPlant :: "int \<Rightarrow> jsval \<Rightarrow> jsval" where
  "trimPlant maxSynonyms plant =
     (let plantCopy = entries plant in
      case rd (JObj plantCopy) ''synonyms'' of
        JArr syns \<Rightarrow>
          if int (length syns) > maxSynonyms
          then JObj (assign ''synonyms'' (JArr (slice0 maxSynonyms syns)) plantCopy)
          else JObj plantCopy
      | other \<Rightarrow> JObj plantCopy)"

definition trimPlantSynonyms :: "jsval \<Rightarrow> int \<Rightarrow> jsval" where
  "trimPlantSynonyms plants maxSynonyms =
     (if \<not> truthy plants \<or> \<not> isArray plants then plants
      else case plants of JArr ps \<Rightarrow> JArr (map (trimPlant maxSynonyms) ps) | other \<Rightarrow> other)"

text \<open>\<open>findFirstSourceWithUrl\<close>: the loop over the sources, then \<open>null\<close>.\<close>

fun firstWithUrl :: "jsval list \<Rightarrow> jsval" where
  "firstWithUrl [] = JNull"
| "firstWithUrl (source # rest) =
     (if truthy source \<and> typeofObject source \<and> truthy (rd source ''url'') then source
      else firstWithUrl rest)"

definition findFirstSourceWithUrl :: "jsval \<Rightarrow> jsval" where
  "findFirstSourceWithUrl sources =
     (if \<not> truthy sources \<or> \<not> isArray sources then JNull
      else case sources of JArr xs \<Rightarrow> firstWithUrl xs | other \<Rightarrow> JNull)"

text \<open>
  The entries \<open>findFirstSourceWithUrl\<close> is looking for: a mapping (not \<open>null\<close>, not an
  array, not a primitive) whose \<open>url\<close> is truthy.
\<close>

definition mappingWithUrl :: "jsval \<Rightarrow> bool" where
  "mappingWithUrl v = (case v of JObj kvs \<Rightarrow> truthy (rd (JObj kvs) ''url'') | other \<Rightarrow> False)"

section \<open>The record flattener (config.js)\<close>

definition rootProps :: "string list" where
  "rootProps = [''id'', ''common_name'', ''slug'', ''scientific_name'', ''year'',
     ''bibliography'', ''author'', ''status'', ''rank'', ''family_common_name'',
     ''genus_id'', ''image_url'', ''observations'', ''vegetable'']"

definition mainSpeciesProps :: "string list" where
  "mainSpeciesProps = [''rank'', ''observations'', ''duration'', ''edible_part'', ''edible'']"

text \<open>\<open>for (const prop of props) flattened[prop] = src[prop]\<close>; the read throws on a
  \<open>null\<close> or \<open>undefined\<close> source.\<close>

fun copyProps :: "string list \<Rightarrow> jsval \<Rightarrow> (string \<times> jsval) list \<Rightarrow> error + (string \<times> jsval) list" where
  "copyProps [] src flattened = Inr flattened"
| "copyProps (p # ps) src flattened =
     bindE (getProp src p) (\<lambda>v. copyProps ps src (assign p v flattened))"

text \<open>A run of assignments \<open>flattened.k = v\<close>, in order.\<close>

definition assignAll :: "(string \<times> jsval) list \<Rightarrow> (string \<times> jsval) list \<Rightarrow> (string \<times> jsval) list" where
  "assignAll kvs flattened = fold (\<lambda>(k, v). assign k v) kvs flattened"

text \<open>The synonyms rule: the first five when there are more than five.\<close>

definition topSynonyms :: "jsval \<Rightarrow> jsval" where
  "topSynonyms synonyms =
     (case synonyms of
        JArr syns \<Rightarrow> if length syns > 5 then JArr (slice0 5 syns) else synonyms
      | other \<Rightarrow> synonyms)"

subsection \<open>Images\<close>

text \<open>
  The callback of \<open>imageList.slice(0, 2).map(...)\<close>.  \<open>typeof img === 'object'\<close> holds of
  \<open>null\<close>, and then \<open>img.image_url\<close> throws.
\<close>

definition projectImage :: "jsval \<Rightarrow> error + jsval" where
  "projectImage img =
     (if typeofObject img
      then bindE (getProp img ''image_url'') (\<lambda>u.
           bindE (getProp img ''copyright'') (\<lambda>c.
           Inr (JObj [(''image_url'', u), (''copyright'', c)])))
      else Inr img)"

text \<open>The callback of \<open>.filter(img => img && (img.image_url || img.copyright))\<close>; the
  reads happen on a truthy \<open>img\<close> only.\<close>

definition keepImage :: "jsval \<Rightarrow> bool" where
  "keepImage img = (truthy img \<and> (truthy (rd img ''image_url'') \<or> truthy (rd img ''copyright'')))"

text \<open>The loop over \<open>Object.entries(images)\<close>, with \<open>trimmedImages\<close> as accumulator.\<close>

fun trimImages :: "(string \<times> jsval) list \<Rightarrow> (string \<times> jsval) list \<Rightarrow> error + (string \<times> jsval) list" where
  "trimImages [] trimmedImages = Inr trimmedImages"
| "trimImages ((imageType, imageList) # rest) trimmedImages =
     (if \<not> truthy imageList \<or> \<not> isArray imageList \<or> imageType = [] then trimImages rest trimmedImages
      else case imageList of
        JArr imgs \<Rightarrow>
          bindE (mapE projectImage (slice0 2 imgs)) (\<lambda>projected.
            let trimmedList = filter keepImage projected in
            trimImages rest
              (if length trimmedList > 0 then assign imageType (JArr trimmedList) trimmedImages
               else trimmedImages))
      | other \<Rightarrow> trimImages rest trimmedImages)"

subsection \<open>Distributions\<close>

text \<open>The callback of \<open>distList.map(dist => ({name: dist.name, species_count: dist.species_count}))\<close>;
  the reads throw on a \<open>null\<close> or \<open>undefined\<close> entry.\<close>

definition projectDist :: "jsval \<Rightarrow> error + jsval" where
  "projectDist dist =
     bindE (getProp dist ''name'') (\<lambda>n.
     bindE (getProp dist ''species_count'') (\<lambda>c.
     Inr (JObj [(''name'', n), (''species_count'', c)])))"

text \<open>
  ToNumber, for the subtraction in the comparator.  \<open>None\<close> stands for \<open>NaN\<close>.  The
  numeric value of a string, an array or an object (the parse of its text) is not
  computed here: the model gives \<open>None\<close> for them, and nothing is stated below about
  the order of entries whose \<open>species_count\<close> is one of these.
\<close>

fun toNumber :: "jsval \<Rightarrow> int option" where
  "toNumber (JNum n) = Some n"
| "toNumber (JBool b) = Some (if b then 1 else 0)"
| "toNumber JNull = Some 0"
| "toNumber v = None"

definition jsMinus :: "jsval \<Rightarrow> jsval \<Rightarrow> int option" where
  "jsMinus x y =
     (case toNumber x of None \<Rightarrow> None
      | Some a \<Rightarrow> (case toNumber y of None \<Rightarrow> None | Some b \<Rightarrow> Some (a - b)))"

text \<open>The comparator \<open>(a, b) => (b.species_count ?? 0) - (a.species_count ?? 0)\<close>.\<close>

definition compareDist :: "jsval \<Rightarrow> jsval \<Rightarrow> int option" where
  "compareDist a b =
     (let countA = nullishElse (rd a ''species_count'') (JNum 0);
          countB = nullishElse (rd b ''species_count'') (JNum 0)
      in jsMinus countB countA)"

text \<open>
  \<open>Array.prototype.sort(comparefn)\<close> is a built-in of the language: it is stable, and a
  comparator result of \<open>NaN\<close> counts as \<open>0\<close>.  It is modelled by a stable insertion
  sort: \<open>x\<close> moves behind \<open>y\<close> only when \<open>comparefn(x, y) > 0\<close>.  For a comparator that
  compares by a key, every stable sort gives this result.
\<close>

definition positive :: "int option \<Rightarrow> bool" where
  "positive r = (case r of Some n \<Rightarrow> n > 0 | None \<Rightarrow> False)"

fun insertBy :: "('a \<Rightarrow> 'a \<Rightarrow> int option) \<Rightarrow> 'a \<Rightarrow> 'a list \<Rightarrow> 'a list" where
  "insertBy cmp x [] = [x]"
| "insertBy cmp x (y # ys) =
     (if positive (cmp x y) then y # insertBy cmp x ys else x # y # ys)"

definition jsSort :: "('a \<Rightarrow> 'a \<Rightarrow> int option) \<Rightarrow> 'a list \<Rightarrow> 'a list" where
  "jsSort cmp xs = foldr (insertBy cmp) xs []"

text \<open>The loop over \<open>['native', 'introduced']\<close>, with \<open>trimmedDistributions\<close> as accumulator.\<close>

fun trimDistributions :: "string list \<Rightarrow> jsval \<Rightarrow> (string \<times> jsval) list \<Rightarrow> error + (string \<times> jsval) list" where
  "trimDistributions [] distributions trimmedDistributions = Inr trimmedDistributions"
| "trimDistributions (distType # rest) distributions trimmedDistributions =
     (case orElse (rd distributions distType) (JArr []) of
        JArr distList \<Rightarrow>
          if length distList > 0
          then bindE (mapE projectDist distList) (\<lambda>projected.
                 let trimmedDistList = slice0 5 (jsSort compareDist projected) in
                 trimDistributions rest distributions
                   (if length trimmedDistList > 0
                    then assign distType (JArr trimmedDistList) trimmedDistributions
                    else trimmedDistributions))
          else trimDistributions rest distributions trimmedDistributions
      | other \<Rightarrow> trimDistributions rest distributions trimmedDistributions)"

subsection \<open>The attribute groups\<close>

definition flowerFoliageFruit :: "jsval \<Rightarrow> (string \<times> jsval) list" where
  "flowerFoliageFruit mainSpecies =
     (let flower = orElse (rd mainSpecies ''flower'') (JObj []);
          foliage = orElse (rd mainSpecies ''foliage'') (JObj []);
          fruitOrSeed = orElse (rd mainSpecies ''fruit_or_seed'') (JObj [])
      in [(''flower_color'', rd flower ''color''),
          (''flower_conspicuous'', rd flower ''conspicuous''),
          (''foliage_texture'', rd foliage ''texture''),
          (''foliage_color'', rd foliage ''color''),
          (''foliage_leaf_retention'', rd foliage ''leaf_retention''),
          (''fruit_conspicuous'', rd fruitOrSeed ''conspicuous''),
          (''fruit_color'', rd fruitOrSeed ''color''),
          (''fruit_shape'', rd fruitOrSeed ''shape''),
          (''fruit_seed_persistence'', rd fruitOrSeed ''seed_persistence'')])"

definition specFields :: "jsval \<Rightarrow> (string \<times> jsval) list" where
  "specFields mainSpecies =
     (let specifications = orElse (rd mainSpecies ''specifications'') (JObj [])
      in [(''spec_ligneous_type'', rd specifications ''ligneous_type''),
          (''spec_growth_form'', rd specifications ''growth_form''),
          (''spec_growth_habit'', rd specifications ''growth_habit''),
          (''spec_growth_rate'', rd specifications ''growth_rate''),
          (''spec_average_height_cm'', optChain (rd specifications ''average_height'') ''cm''),
          (''spec_maximum_height_cm'', optChain (rd specifications ''maximum_height'') ''cm''),
          (''spec_nitrogen_fixation'', rd specifications ''nitrogen_fixation''),
          (''spec_shape_and_orientation'', rd specifications ''shape_and_orientation''),
          (''spec_toxicity'', rd specifications ''toxicity'')])"

definition growthFields :: "jsval \<Rightarrow> (string \<times> jsval) list" where
  "growthFields mainSpecies =
     (let growth = orElse (rd mainSpecies ''growth'') (JObj [])
      in [(''growth_description'', rd growth ''description''),
          (''growth_sowing'', rd growth ''sowing''),
          (''growth_days_to_harvest'', rd growth ''days_to_harvest''),
          (''growth_row_spacing_cm'', optChain (rd growth ''row_spacing'') ''cm''),
          (''growth_spread_cm'', optChain (rd growth ''spread'') ''cm''),
          (''growth_ph_maximum'', rd growth ''ph_maximum''),
          (''growth_ph_minimum'', rd growth ''ph_minimum''),
          (''growth_light'', rd growth ''light''),
          (''growth_atmospheric_humidity'', rd growth ''atmospheric_humidity''),
          (''growth_months'', rd growth ''growth_months''),
          (''growth_bloom_months'', rd growth ''bloom_months''),
          (''growth_fruit_months'', rd growth ''fruit_months''),
          (''growth_minimum_precipitation_mm'', optChain (rd growth ''minimum_precipitation'') ''mm''),
          (''growth_maximum_precipitation_mm'', optChain (rd growth ''maximum_precipitation'') ''mm''),
          (''growth_minimum_root_depth_cm'', optChain (rd growth ''minimum_root_depth'') ''cm''),
          (''growth_minimum_temperature_deg_f'', optChain (rd growth ''minimum_temperature'') ''deg_f''),
          (''growth_minimum_temperature_deg_c'', optChain (rd growth ''minimum_temperature'') ''deg_c''),
          (''growth_maximum_temperature_deg_f'', optChain (rd growth ''maximum_temperature'') ''deg_f''),
          (''growth_maximum_temperature_deg_c'', optChain (rd growth ''maximum_temperature'') ''deg_c''),
          (''growth_soil_nutriments'', rd growth ''soil_nutriments''),
          (''growth_soil_salinity'', rd growth ''soil_salinity''),
          (''growth_soil_texture'', rd growth ''soil_texture''),
          (''growth_soil_humidity'', rd growth ''soil_humidity'')])"

text \<open>\<open>typeof g === 'object' ? g.name : g\<close> on \<open>g = mainSpecies.genus || {}\<close> (so \<open>g\<close> is
  truthy and the read cannot throw).\<close>

definition nameOf :: "jsval \<Rightarrow> jsval" where
  "nameOf g = (if typeofObject g then rd g ''name'' else g)"

definition genusFamily :: "jsval \<Rightarrow> (string \<times> jsval) list" where
  "genusFamily mainSpecies =
     [(''genus'', nameOf (orElse (rd mainSpecies ''genus'') (JObj []))),
      (''family'', nameOf (orElse (rd mainSpecies ''family'') (JObj [])))]"

subsection \<open>flattenPlantData\<close>

text \<open>
  The statements of the function in their order.  The values produced by \<open>x || {}\<close> are
  truthy, so the reads on them use \<open>rd\<close>; the reads on the two arguments, on an image
  entry and on a distribution entry can throw.
\<close>

definition flattenPlantData :: "jsval \<Rightarrow> jsval \<Rightarrow> error + jsval" where
  "flattenPlantData paginatedData detailedData =
     bindE (copyProps rootProps paginatedData []) (\<lambda>flattened.
     bindE (getProp paginatedData ''synonyms'') (\<lambda>syn.
     let synonyms = orElse syn (JArr []);
         flattened = assign ''synonyms'' (topSynonyms synonyms) flattened
     in
     bindE (getProp detailedData ''main_species'') (\<lambda>ms.
     let mainSpecies = orElse ms (JObj []) in
     bindE (copyProps mainSpeciesProps mainSpecies flattened) (\<lambda>flattened.
     let images = orElse (rd mainSpecies ''images'') (JObj []) in
     bindE (trimImages (entries images) []) (\<lambda>trimmedImages.
     let flattened = assign ''images'' (JObj trimmedImages) flattened;
         distributions = orElse (rd mainSpecies ''distributions'') (JObj [])
     in
     bindE (trimDistributions [''native'', ''introduced''] distributions []) (\<lambda>trimmedDistributions.
     let flattened = assign ''distributions'' (JObj trimmedDistributions) flattened;
         flattened = assignAll (flowerFoliageFruit mainSpecies) flattened;
         sources = orElse (rd mainSpecies ''sources'') (JArr []);
         flattened = assign ''source'' (findFirstSourceWithUrl sources) flattened;
         flattened = assignAll (specFields mainSpecies) flattened;
         flattened = assignAll (growthFields mainSpecies) flattened;
         flattened = assignAll (genusFamily mainSpecies) flattened
     in Inr (JObj flattened)))))))"

subsection \<open>Notions used to state the properties of the flattener\<close>

text \<open>The three defaulted reads at the head of the function.\<close>

definition mainSpeciesOf :: "jsval \<Rightarrow> jsval" where
  "mainSpeciesOf detailedData = orElse (rd detailedData ''main_species'') (JObj [])"

definition imagesOf :: "jsval \<Rightarrow> jsval" where
  "imagesOf detailedData = orElse (rd (mainSpeciesOf detailedData) ''images'') (JObj [])"

definition distributionsOf :: "jsval \<Rightarrow> jsval" where
  "distributionsOf detailedData = orElse (rd (mainSpeciesOf detailedData) ''distributions'') (JObj [])"

text \<open>All assignments to \<open>flattened\<close> in their order, given the two trimmed collections:
  those that read the summary, then those that read \<open>main_species\<close>.\<close>

definition summaryAssignments :: "jsval \<Rightarrow> (string \<times> jsval) list" where
  "summaryAssignments paginatedData =
     map (\<lambda>p. (p, rd paginatedData p)) rootProps
     @ [(''synonyms'', topSynonyms (orElse (rd paginatedData ''synonyms'') (JArr [])))]"

definition detailAssignments :: "jsval \<Rightarrow> (string \<times> jsval) list \<Rightarrow> (string \<times> jsval) list \<Rightarrow> (string \<times> jsval) list" where
  "detailAssignments mainSpecies trimmedImages trimmedDistributions =
     map (\<lambda>p. (p, rd mainSpecies p)) mainSpeciesProps
     @ [(''images'', JObj trimmedImages), (''distributions'', JObj trimmedDistributions)]
     @ flowerFoliageFruit mainSpecies
     @ [(''source'', findFirstSourceWithUrl (orElse (rd mainSpecies ''sources'') (JArr [])))]
     @ specFields mainSpecies
     @ growthFields mainSpecies
     @ genusFamily mainSpecies"

definition flatAssignments :: "jsval \<Rightarrow> jsval \<Rightarrow> (string \<times> jsval) list \<Rightarrow> (string \<times> jsval) list \<Rightarrow> (string \<times> jsval) list" where
  "flatAssignments paginatedData mainSpecies trimmedImages trimmedDistributions =
     summaryAssignments paginatedData
     @ detailAssignments mainSpecies trimmedImages trimmedDistributions"

text \<open>
  The distribution rule in the words of the specification: the sequence
  \<open>mainSpecies.distributions[key]\<close> (or the empty sequence), each entry projected to
  \<open>{name, species_count}\<close>, sorted by descending \<open>species_count\<close> with a missing count
  read as 0, stably, and cut to the first five.
\<close>

definition distList :: "jsval \<Rightarrow> string \<Rightarrow> jsval list" where
  "distList distributions key =
     (case orElse (rd distributions key) (JArr []) of JArr xs \<Rightarrow> xs | other \<Rightarrow> [])"

definition distInput :: "jsval \<Rightarrow> string \<Rightarrow> jsval list" where
  "distInput detailedData key = distList (distributionsOf detailedData) key"

definition distProjection :: "jsval \<Rightarrow> jsval" where
  "distProjection e = JObj [(''name'', rd e ''name''), (''species_count'', rd e ''species_count'')]"

definition speciesCount :: "jsval \<Rightarrow> int" where
  "speciesCount e = (case rd e ''species_count'' of JNum n \<Rightarrow> n | other \<Rightarrow> 0)"

definition sortedDistributions :: "jsval list \<Rightarrow> jsval list" where
  "sortedDistributions ds = sort_key (\<lambda>e. - speciesCount e) (map distProjection ds)"

definition topDistributions :: "jsval list \<Rightarrow> jsval list" where
  "topDistributions ds = take 5 (sortedDistributions ds)"

text \<open>An entry whose \<open>species_count\<close> is a number, \<open>null\<close> or missing.\<close>

definition countedEntry :: "jsval \<Rightarrow> bool" where
  "countedEntry e =
     (case rd e ''species_count'' of
        JNum n \<Rightarrow> True | JNull \<Rightarrow> True | JUndefined \<Rightarrow> True | other \<Rightarrow> False)"

text \<open>
  The inputs on which the two projections do not throw: no image list that the loop
  processes has \<open>null\<close> among its first two entries, and no entry of the \<open>native\<close> or
  \<open>introduced\<close> list is \<open>null\<close> or \<open>undefined\<close>.
\<close>

definition nullFreeImages :: "jsval \<Rightarrow> bool" where
  "nullFreeImages detailedData =
     list_all (\<lambda>(imageType, imageList).
         case imageList of
           JArr imgs \<Rightarrow> imageType = [] \<or> list_all (\<lambda>img. img \<noteq> JNull) (take 2 imgs)
         | other \<Rightarrow> True)
       (entries (imagesOf detailedData))"

definition nullFreeDistributions :: "jsval \<Rightarrow> bool" where
  "nullFreeDistributions detailedData =
     list_all (\<lambda>e. \<not> nullish e)
       (distInput detailedData ''native'' @ distInput detailedData ''introduced'')"

text \<open>A field of the returned record, when the call returns.\<close>

definition resultField :: "error + jsval \<Rightarrow> string \<Rightarrow> jsval option" where
  "resultField res k = (case res of Inl e \<Rightarrow> None | Inr r \<Rightarrow> Some (rd r k))"

text \<open>
  The flattening rule set as a table: the output keys copied from the summary, and for
  every output key copied from \<open>main_species\<close> the path of attributes it is read from.
  \<open>rank\<close> and \<open>observations\<close> are assigned from the summary first and from
  \<open>main_species\<close> afterwards, so their final source is \<open>main_species\<close>.
\<close>

definition summaryKeys :: "string list" where
  "summaryKeys = [''id'', ''common_name'', ''slug'', ''scientific_name'', ''year'',
     ''bibliography'', ''author'', ''status'', ''family_common_name'',
     ''genus_id'', ''image_url'', ''vegetable'']"

definition mainSpeciesTable :: "(string \<times> string list) list" where
  "mainSpeciesTable =
     [(''rank'', [''rank'']), (''observations'', [''observations'']),
      (''duration'', [''duration'']), (''edible_part'', [''edible_part'']),
      (''edible'', [''edible''])]"

definition groupTable :: "(string \<times> string list) list" where
  "groupTable =
     [(''flower_color'', [''flower'', ''color'']),
      (''flower_conspicuous'', [''flower'', ''conspicuous'']),
      (''foliage_texture'', [''foliage'', ''texture'']),
      (''foliage_color'', [''foliage'', ''color'']),
      (''foliage_leaf_retention'', [''foliage'', ''leaf_retention'']),
      (''fruit_conspicuous'', [''fruit_or_seed'', ''conspicuous'']),
      (''fruit_color'', [''fruit_or_seed'', ''color'']),
      (''fruit_shape'', [''fruit_or_seed'', ''shape'']),
      (''fruit_seed_persistence'', [''fruit_or_seed'', ''seed_persistence''])]"

definition specTable :: "(string \<times> string list) list" where
  "specTable =
     [(''spec_ligneous_type'', [''specifications'', ''ligneous_type'']),
      (''spec_growth_form'', [''specifications'', ''growth_form'']),
      (''spec_growth_habit'', [''specifications'', ''growth_habit'']),
      (''spec_growth_rate'', [''specifications'', ''growth_rate'']),
      (''spec_average_height_cm'', [''specifications'', ''average_height'', ''cm'']),
      (''spec_maximum_height_cm'', [''specifications'', ''maximum_height'', ''cm'']),
      (''spec_nitrogen_fixation'', [''specifications'', ''nitrogen_fixation'']),
      (''spec_shape_and_orientation'', [''specifications'', ''shape_and_orientation'']),
      (''spec_toxicity'', [''specifications'', ''toxicity''])]"

definition growthTable :: "(string \<times> string list) list" where
  "growthTable =
     [(''growth_description'', [''growth'', ''description'']),
      (''growth_sowing'', [''growth'', ''sowing'']),
      (''growth_days_to_harvest'', [''growth'', ''days_to_harvest'']),
      (''growth_row_spacing_cm'', [''growth'', ''row_spacing'', ''cm'']),
      (''growth_spread_cm'', [''growth'', ''spread'', ''cm'']),
      (''growth_ph_maximum'', [''growth'', ''ph_maximum'']),
      (''growth_ph_minimum'', [''growth'', ''ph_minimum'']),
      (''growth_light'', [''growth'', ''light'']),
      (''growth_atmospheric_humidity'', [''growth'', ''atmospheric_humidity'']),
      (''growth_months'', [''growth'', ''growth_months'']),
      (''growth_bloom_months'', [''growth'', ''bloom_months'']),
      (''growth_fruit_months'', [''growth'', ''fruit_months'']),
      (''growth_minimum_precipitation_mm'', [''growth'', ''minimum_precipitation'', ''mm'']),
      (''growth_maximum_precipitation_mm'', [''growth'', ''maximum_precipitation'', ''mm'']),
      (''growth_minimum_root_depth_cm'', [''growth'', ''minimum_root_depth'', ''cm'']),
      (''growth_minimum_temperature_deg_f'', [''growth'', ''minimum_temperature'', ''deg_f'']),
      (''growth_minimum_temperature_deg_c'', [''growth'', ''minimum_temperature'', ''deg_c'']),
      (''growth_maximum_temperature_deg_f'', [''growth'', ''maximum_temperature'', ''deg_f'']),
      (''growth_maximum_temperature_deg_c'', [''growth'', ''maximum_temperature'', ''deg_c'']),
      (''growth_soil_nutriments'', [''growth'', ''soil_nutriments'']),
      (''growth_soil_salinity'', [''growth'', ''soil_salinity'']),
      (''growth_soil_texture'', [''growth'', ''soil_texture'']),
      (''growth_soil_humidity'', [''growth'', ''soil_humidity''])]"

definition detailTable :: "(string \<times> string list) list" where
  "detailTable = mainSpeciesTable @ groupTable @ specTable @ growthTable"

definition ruleKeys :: "string list" where
  "ruleKeys = rootProps @ [''synonyms''] @ map fst mainSpeciesTable
     @ [''images'', ''distributions''] @ map fst groupTable @ [''source'']
     @ map fst specTable @ map fst growthTable @ [''genus'', ''family'']"

text \<open>
  \<open>follow v path\<close> walks a path of attribute names through nested mappings; it is
  \<open>None\<close> when the path is missing: a step is not a key of the value reached, or the
  value reached is not a mapping.
\<close>

fun follow :: "jsval \<Rightarrow> string list \<Rightarrow> jsval option" where
  "follow v [] = Some v"
| "follow (JObj kvs) (k # ks) = (case map_of kvs k of None \<Rightarrow> None | Some w \<Rightarrow> follow w ks)"
| "follow v (k # ks) = None"

text \<open>The read of a path as the function does it: every step but the last defaults to
  \<open>{}\<close>.\<close>

fun readPath :: "jsval \<Rightarrow> string list \<Rightarrow> jsval" where
  "readPath v [] = v"
| "readPath v [k] = rd v k"
| "readPath v (k # ks) = readPath (orElse (rd v k) (JObj [])) ks"

text \<open>The assignments that a table of paths stands for.\<close>

definition tableAssignments :: "jsval \<Rightarrow> (string \<times> string list) list \<Rightarrow> (string \<times> jsval) list" where
  "tableAssignments ms tab = map (\<lambda>(k, path). (k, readPath ms path)) tab"


text \<open>What one round of the loop over the distribution keys adds to the accumulator, given
  the projected entries.\<close>

definition distEntry :: "string \<Rightarrow> jsval list \<Rightarrow> (string \<times> jsval) list" where
  "distEntry key projected =
     (let trimmedDistList = slice0 5 (jsSort compareDist projected)
      in if trimmedDistList = [] then [] else [(key, JArr trimmedDistList)])"

section \<open>The fetch loops of the command line tool\<close>

text \<open>
  The main script: \<open>enrichPlantData\<close> and \<open>fetchPlants\<close>, with the outside world as a
  parameter.  The two API calls return the parsed response or throw; the file
  system accepts a write or fails it.  A call is taken to answer the same for the same
  argument.  The pauses between requests and the log lines have no effect on the data
  and are left out.
\<close>

record env =
  getPlants :: "int \<Rightarrow> error + jsval"
  getPlant :: "jsval \<Rightarrow> error + jsval"
  diskAccepts :: "string \<Rightarrow> bool"

text \<open>The parsed command line options that \<open>fetchPlants\<close> reads.  \<open>optPages\<close> is
  \<open>None\<close> when \<open>--pages\<close> is absent (or not a number).\<close>

record options =
  optPlants :: bool
  optEnrichment :: bool
  optFormat :: string
  optDryRun :: bool
  optPages :: "int option"
  optStartPage :: int

definition getFileExtension :: "string \<Rightarrow> string" where
  "getFileExtension fileFormat =
     (if fileFormat = ''json.gz'' then ''.json.gz''
      else if fileFormat = ''csv'' then ''.csv''
      else ''.json'')"

text \<open>
  \<open>writeToFile(data, filepath, fileFormat)\<close> for a list of records and an explicit
  format: it throws without a path, for the \<open>csv\<close> format on an empty list, and when
  the file system fails.  The serialisation itself is a library call.
\<close>

definition writeToFile :: "env \<Rightarrow> jsval list \<Rightarrow> string \<Rightarrow> string \<Rightarrow> error + unit" where
  "writeToFile e dat filepath fileFormat =
     (if filepath = [] then Inl WriteError
      else if fileFormat = ''csv'' \<and> dat = [] then Inl WriteError
      else if \<not> diskAccepts e filepath then Inl WriteError
      else Inr ())"

subsection \<open>enrichPlantData\<close>

text \<open>
  The body of the \<open>try\<close> block for one plant with a truthy id, with its \<open>catch\<close>: the
  value pushed to \<open>enrichedPlants\<close>.  An exception of the detail fetch, of the read of
  \<open>detailedResult.data\<close> or of \<open>flattenPlantData\<close> ends in the \<open>catch\<close>, which pushes the
  plant itself.
\<close>

definition enrichRecord :: "env \<Rightarrow> bool \<Rightarrow> jsval \<Rightarrow> jsval \<Rightarrow> jsval" where
  "enrichRecord e dryRun plant plantId =
     (if dryRun then plant
      else case getPlant e plantId of
        Inl err \<Rightarrow> plant
      | Inr detailedResult \<Rightarrow>
          (case getProp detailedResult ''data'' of
             Inl err \<Rightarrow> plant
           | Inr detail \<Rightarrow>
               if truthy detail
               then (case flattenPlantData plant detail of
                       Inl err \<Rightarrow> plant
                     | Inr flattened \<Rightarrow> flattened)
               else plant))"

text \<open>The \<open>for\<close> loop, with \<open>enrichedPlants\<close> as accumulator.  The read \<open>plant.id\<close> is
  outside the \<open>try\<close> block: on a \<open>null\<close> entry it ends the whole call.\<close>

fun enrichLoop :: "env \<Rightarrow> bool \<Rightarrow> jsval list \<Rightarrow> jsval list \<Rightarrow> error + jsval list" where
  "enrichLoop e dryRun [] enrichedPlants = Inr enrichedPlants"
| "enrichLoop e dryRun (plant # rest) enrichedPlants =
     bindE (getProp plant ''id'') (\<lambda>plantId.
       if \<not> truthy plantId then enrichLoop e dryRun rest enrichedPlants
       else enrichLoop e dryRun rest (enrichedPlants @ [enrichRecord e dryRun plant plantId]))"

text \<open>\<open>enrichPlantData(api, plants, dryRun)\<close>, the array \<open>plants\<close> given by its elements.\<close>

definition enrichPlantData :: "env \<Rightarrow> jsval list \<Rightarrow> bool \<Rightarrow> error + jsval list" where
  "enrichPlantData e plants dryRun =
     (if length plants = 0 then Inr [] else enrichLoop e dryRun plants [])"

text \<open>A plant whose detail fetch fails, or answers without a usable payload.\<close>

definition detailUnusable :: "env \<Rightarrow> jsval \<Rightarrow> bool" where
  "detailUnusable e plant =
     (case getPlant e (rd plant ''id'') of
        Inl err \<Rightarrow> True
      | Inr detailedResult \<Rightarrow> nullish detailedResult \<or> \<not> truthy (rd detailedResult ''data''))"

subsection \<open>fetchPlants\<close>

record fetchState =
  page :: int
  pagesFetched :: nat
  batchData :: "jsval list"
  batchStartPage :: int
  written :: "(string \<times> string \<times> jsval list) list"

text \<open>How a run ends: the function returns, an exception leaves it, or the response has a
  shape that this model does not follow (a \<open>data\<close> that is not an array but is truthy and
  may have a length).\<close>

datatype ending = Returned | Raised error | Unmodelled

definition batchSize :: "options \<Rightarrow> nat" where
  "batchSize opts = (if optEnrichment opts then 5 else 10)"

definition enrichedSuffix :: "options \<Rightarrow> string" where
  "enrichedSuffix opts = (if optEnrichment opts then ''_enriched'' else [])"

text \<open>
  The file name of a batch (inside the directory \<open>datasets/trefle/plants\<close> under the
  working directory) and the write of the current batch under it; \<open>written\<close> records the
  name, the format and the records of every write that succeeded.
\<close>

definition batchFile :: "options \<Rightarrow> int \<Rightarrow> int \<Rightarrow> string" where
  "batchFile opts batchStart batchEnd =
     ''plants_pages_'' @ numToString batchStart @ ''-'' @ numToString batchEnd
       @ enrichedSuffix opts @ getFileExtension (optFormat opts)"

definition saveBatch :: "env \<Rightarrow> options \<Rightarrow> fetchState \<Rightarrow> int \<Rightarrow> error + fetchState" where
  "saveBatch e opts st batchEndPage =
     (let filepath = batchFile opts (batchStartPage st) batchEndPage in
      bindE (writeToFile e (batchData st) filepath (optFormat opts)) (\<lambda>u.
        Inr (st\<lparr>written := written st @ [(filepath, optFormat opts, batchData st)]\<rparr>)))"

text \<open>\<open>options.pages && pagesFetched >= options.pages\<close>.\<close>

definition pageLimitReached :: "options \<Rightarrow> fetchState \<Rightarrow> bool" where
  "pageLimitReached opts st =
     (case optPages opts of
        None \<Rightarrow> False
      | Some n \<Rightarrow> n \<noteq> 0 \<and> int (pagesFetched st) \<ge> n)"

text \<open>
  One round of the loop on a fetched page: the \<open>try\<close> block.  It ends by going on to
  the next round (\<open>Next\<close>), by \<open>break\<close>, or by an exception, kept with the state reached
  when it was thrown (\<open>Thrown\<close>); \<open>Outside\<close> marks a response that the model does not
  follow.  \<open>afterPage\<close> is the part of the block behind the accumulation of the page's
  records.
\<close>

datatype step = Next fetchState | Break fetchState | Thrown error fetchState | Outside fetchState

definition afterPage :: "env \<Rightarrow> options \<Rightarrow> jsval \<Rightarrow> fetchState \<Rightarrow> step" where
  "afterPage e opts result st =
     (let st = st\<lparr>pagesFetched := pagesFetched st + 1\<rparr> in
      case (if pagesFetched st mod batchSize opts = 0
            then bindE (saveBatch e opts st (page st)) (\<lambda>st.
                   Inr (st\<lparr>batchData := [], batchStartPage := page st + 1\<rparr>))
            else Inr st) of
        Inl err \<Rightarrow> Thrown err st
      | Inr st \<Rightarrow>
          let links = rd result ''links'' in
          if truthy links \<and> truthy (rd links ''next'')
          then Next (st\<lparr>page := page st + 1\<rparr>)
          else if length (batchData st) > 0
               then (case saveBatch e opts st (page st) of
                       Inl err \<Rightarrow> Thrown err st
                     | Inr st \<Rightarrow> Break st)
               else Break st)"

definition tryPage :: "env \<Rightarrow> options \<Rightarrow> fetchState \<Rightarrow> step" where
  "tryPage e opts st =
     (case getPlants e (page st) of
        Inl err \<Rightarrow> Thrown err st
      | Inr result \<Rightarrow>
          (case getProp result ''data'' of
             Inl err \<Rightarrow> Thrown err st
           | Inr dat \<Rightarrow>
               (case dat of
                  JArr pagePlants \<Rightarrow>
                    if length pagePlants > 0
                    then if optEnrichment opts
                         then (case enrichPlantData e pagePlants (optDryRun opts) of
                                 Inl err \<Rightarrow> Thrown err st
                               | Inr enrichedData \<Rightarrow>
                                   afterPage e opts result
                                     (st\<lparr>batchData := batchData st @ enrichedData\<rparr>))
                         else (case trimPlantSynonyms (JArr pagePlants) 5 of
                                 JArr trimmedData \<Rightarrow>
                                   afterPage e opts result
                                     (st\<lparr>batchData := batchData st @ trimmedData\<rparr>)
                               | other \<Rightarrow> Outside st)
                    else Break st
                | JStr s \<Rightarrow> if s = [] then Break st else Outside st
                | JObj kvs \<Rightarrow> if map_of kvs ''length'' = None then Break st else Outside st
                | other \<Rightarrow> Break st)))"

text \<open>
  The \<open>while (true)\<close> loop.  It need not end (an API that always names a next page, no
  page limit), so the rounds are counted down from a bound: \<open>None\<close> means that the bound
  was too small.
\<close>

fun fetchLoop :: "env \<Rightarrow> options \<Rightarrow> nat \<Rightarrow> fetchState \<Rightarrow> (ending \<times> fetchState) option" where
  "fetchLoop e opts 0 st = None"
| "fetchLoop e opts (Suc fuel) st =
     (if pageLimitReached opts st
      then (if length (batchData st) > 0 \<and> \<not> optDryRun opts
            then (case saveBatch e opts st (page st - 1) of
                    Inl err \<Rightarrow> Some (Raised err, st)
                  | Inr st \<Rightarrow> Some (Returned, st))
            else Some (Returned, st))
      else if optDryRun opts
      then (let st = st\<lparr>pagesFetched := pagesFetched st + 1, page := page st + 1\<rparr> in
            if pagesFetched st \<ge> 15 then Some (Returned, st) else fetchLoop e opts fuel st)
      else (case tryPage e opts st of
              Next st \<Rightarrow> fetchLoop e opts fuel st
            | Break st \<Rightarrow> Some (Returned, st)
            | Outside st \<Rightarrow> Some (Unmodelled, st)
            | Thrown err st \<Rightarrow>
                if length (batchData st) > 0
                then (case saveBatch e opts st (page st - 1) of
                        Inl err' \<Rightarrow> Some (Raised err', st)
                      | Inr st \<Rightarrow> Some (Returned, st))
                else Some (Returned, st)))"

definition fetchPlants :: "env \<Rightarrow> options \<Rightarrow> nat \<Rightarrow> (ending \<times> fetchState) option" where
  "fetchPlants e opts fuel =
     (let st = \<lparr>page = optStartPage opts, pagesFetched = 0, batchData = [],
                batchStartPage = optStartPage opts, written = []\<rparr>
      in if \<not> optPlants opts then Some (Returned, st) else fetchLoop e opts fuel st)"

section \<open>trimPlantSynonyms on a store\<close>

text \<open>
  Arrays and objects of the runtime are mutable cells that values refer to, so whether
  \<open>trimPlantSynonyms\<close> changes its input is a question about cells.  Here the function
  is written a second time on an explicit store: a list of cells, an address being an
  index, allocation appending a cell.  A stored value is a primitive or a reference to
  a cell.
\<close>

datatype sval = Prim jsval | Ref nat

datatype cell = CArr "sval list" | CObj "(string \<times> sval) list"

type_synonym store = "cell list"

definition alloc :: "cell \<Rightarrow> store \<Rightarrow> nat \<times> store" where
  "alloc c s = (length s, s @ [c])"

text \<open>The own enumerable properties that the spread \<open>{...plant}\<close> copies; the property
  values are copied as they are, so a cell they refer to is shared by the copy.\<close>

fun sEntries :: "store \<Rightarrow> sval \<Rightarrow> (string \<times> sval) list" where
  "sEntries s (Ref a) =
     (case s ! a of
        CObj kvs \<Rightarrow> kvs
      | CArr hs \<Rightarrow> zip (map decimal [0..<length hs]) hs)"
| "sEntries s (Prim (JStr cs)) = zip (map decimal [0..<length cs]) (map (\<lambda>c. Prim (JStr [c])) cs)"
| "sEntries s (Prim v) = []"

text \<open>
  The callback of \<open>plants.map\<close>: \<open>plantCopy\<close> is a fresh cell; when its \<open>synonyms\<close>
  refers to an array longer than \<open>maxSynonyms\<close>, \<open>slice\<close> allocates the shorter array
  and the assignment \<open>plantCopy.synonyms = ...\<close> overwrites the cell of the copy.
\<close>

definition trimPlantS :: "int \<Rightarrow> store \<Rightarrow> sval \<Rightarrow> sval \<times> store" where
  "trimPlantS maxSynonyms s plant =
     (let props = sEntries s plant;
          (plantCopy, s1) = alloc (CObj props) s
      in case map_of props ''synonyms'' of
           Some (Ref a) \<Rightarrow>
             (case s1 ! a of
                CArr syns \<Rightarrow>
                  if int (length syns) > maxSynonyms
                  then let (sliced, s2) = alloc (CArr (slice0 maxSynonyms syns)) s1
                       in (Ref plantCopy,
                           s2[plantCopy := CObj (AList.update ''synonyms'' (Ref sliced) props)])
                  else (Ref plantCopy, s1)
              | other \<Rightarrow> (Ref plantCopy, s1))
         | other \<Rightarrow> (Ref plantCopy, s1))"

text \<open>\<open>xs.map(f)\<close> for a callback that allocates.\<close>

fun mapStore :: "(store \<Rightarrow> sval \<Rightarrow> sval \<times> store) \<Rightarrow> store \<Rightarrow> sval list \<Rightarrow> sval list \<times> store" where
  "mapStore f s [] = ([], s)"
| "mapStore f s (h # hs) =
     (let (h', s1) = f s h; (hs', s2) = mapStore f s1 hs in (h' # hs', s2))"

definition trimPlantSynonymsS :: "store \<Rightarrow> sval \<Rightarrow> int \<Rightarrow> sval \<times> store" where
  "trimPlantSynonymsS s plants maxSynonyms =
     (case plants of
        Prim v \<Rightarrow> (plants, s)
      | Ref a \<Rightarrow>
          (case s ! a of
             CObj kvs \<Rightarrow> (plants, s)
           | CArr hs \<Rightarrow>
               let (out, s1) = mapStore (trimPlantS maxSynonyms) s hs;
                   (res, s2) = alloc (CArr out) s1
               in (Ref res, s2)))"

text \<open>
  \<open>repr s h v\<close>: in the store \<open>s\<close>, the stored value \<open>h\<close> stands for the value \<open>v\<close>.
\<close>

definition primitive :: "jsval \<Rightarrow> bool" where
  "primitive v = (case v of JArr xs \<Rightarrow> False | JObj kvs \<Rightarrow> False | other \<Rightarrow> True)"

inductive repr :: "store \<Rightarrow> sval \<Rightarrow> jsval \<Rightarrow> bool" for s :: store where
  repr_prim: "primitive v \<Longrightarrow> repr s (Prim v) v"
| repr_arr: "a < length s \<Longrightarrow> s ! a = CArr hs \<Longrightarrow> list_all2 (repr s) hs vs
     \<Longrightarrow> repr s (Ref a) (JArr vs)"
| repr_obj: "a < length s \<Longrightarrow> s ! a = CObj hkvs
     \<Longrightarrow> list_all2 (\<lambda>hkv kv. fst hkv = fst kv \<and> repr s (snd hkv) (snd kv)) hkvs kvs
     \<Longrightarrow> repr s (Ref a) (JObj kvs)"

text \<open>\<open>unchanged s s'\<close>: every cell of \<open>s\<close> is in \<open>s'\<close>, at its address, with its
  content.\<close>

definition unchanged :: "store \<Rightarrow> store \<Rightarrow> bool" where
  "unchanged s s' = (length s \<le> length s' \<and> (\<forall>a<length s. s' ! a = s ! a))"

section \<open>Basic facts about the embedding\<close>

lemma bindE_Inr [simp]: "bindE (Inr v) f = f v"
  by (simp add: bindE_def)

lemma bindE_Inl [simp]: "bindE (Inl e) f = Inl e"
  by (simp add: bindE_def)

lemma bindE_eq_Inr: "bindE m f = Inr r \<longleftrightarrow> (\<exists>v. m = Inr v \<and> f v = Inr r)"
  by (cases m) simp_all

lemma getProp_ok [simp]: "\<not> nullish v \<Longrightarrow> getProp v k = Inr (rd v k)"
  by (simp add: getProp_def)

lemma getProp_nullish [simp]: "nullish v \<Longrightarrow> getProp v k = Inl TypeError"
  by (simp add: getProp_def)

lemma orElse_obj_not_nullish [simp]: "\<not> nullish (orElse v (JObj kvs))"
  by (cases v) (simp_all add: orElse_def)

lemma assignAll_Nil [simp]: "assignAll [] fl = fl"
  by (simp add: assignAll_def)

lemma assignAll_Cons [simp]: "assignAll ((k, v) # kvs) fl = assignAll kvs (assign k v fl)"
  by (simp add: assignAll_def)

lemma assignAll_append: "assignAll (xs @ ys) fl = assignAll ys (assignAll xs fl)"
  by (simp add: assignAll_def)

lemma copyProps_ok:
  "\<not> nullish src \<Longrightarrow> copyProps ps src fl = Inr (assignAll (map (\<lambda>p. (p, rd src p)) ps) fl)"
  by (induction ps arbitrary: fl) simp_all

lemma copyProps_nullish:
  "nullish src \<Longrightarrow> ps \<noteq> [] \<Longrightarrow> copyProps ps src fl = Inl TypeError"
  by (cases ps) simp_all

lemma flattenPlantData_unfold:
  "flattenPlantData p d =
     (if nullish p \<or> nullish d then Inl TypeError
      else case trimImages (entries (imagesOf d)) [] of
        Inl e \<Rightarrow> Inl e
      | Inr ti \<Rightarrow>
          (case trimDistributions [''native'', ''introduced''] (distributionsOf d) [] of
             Inl e \<Rightarrow> Inl e
           | Inr td \<Rightarrow> Inr (JObj (assignAll (flatAssignments p (mainSpeciesOf d) ti td) []))))"
proof (cases "nullish p")
  case True
  then show ?thesis
    by (simp add: flattenPlantData_def copyProps_nullish rootProps_def)
next
  case np: False
  show ?thesis
  proof (cases "nullish d")
    case True
    with np show ?thesis
      by (simp add: flattenPlantData_def copyProps_ok Let_def)
  next
    case False
    with np show ?thesis
      by (simp add: flattenPlantData_def copyProps_ok Let_def mainSpeciesOf_def imagesOf_def
          distributionsOf_def flatAssignments_def summaryAssignments_def detailAssignments_def
          assignAll_append split: sum.splits)
  qed
qed


lemma map_of_assignAll: "map_of (assignAll L fl) = map_of fl ++ map_of (rev L)"
proof (induction L arbitrary: fl)
  case Nil
  then show ?case by simp
next
  case (Cons a L)
  obtain k v where a: "a = (k, v)" by (cases a)
  show ?case
    by (rule ext) (simp add: a Cons.IH assign_def update_conv' map_add_def split: option.splits)
qed

lemma projectDist_ok: "\<not> nullish d \<Longrightarrow> projectDist d = Inr (distProjection d)"
  by (simp add: projectDist_def distProjection_def)

lemma projectDist_nullish: "nullish d \<Longrightarrow> projectDist d = Inl TypeError"
  by (simp add: projectDist_def)

lemma mapE_projectDist_Inr:
  "mapE projectDist ds = Inr ps \<Longrightarrow> ps = map distProjection ds \<and> (\<forall>e\<in>set ds. \<not> nullish e)"
proof (induction ds arbitrary: ps)
  case Nil
  then show ?case by simp
next
  case (Cons d ds)
  show ?case
  proof (cases "nullish d")
    case True
    with Cons.prems show ?thesis by (simp add: projectDist_nullish)
  next
    case False
    show ?thesis
    proof (cases "mapE projectDist ds")
      case (Inl e)
      with Cons.prems False show ?thesis by (simp add: projectDist_ok)
    next
      case (Inr qs)
      with Cons.IH have "qs = map distProjection ds \<and> (\<forall>e\<in>set ds. \<not> nullish e)" by simp
      with Cons.prems False Inr show ?thesis by (auto simp: projectDist_ok)
    qed
  qed
qed

lemma mapE_projectDist_ok:
  "\<forall>e\<in>set ds. \<not> nullish e \<Longrightarrow> mapE projectDist ds = Inr (map distProjection ds)"
  by (induction ds) (simp_all add: projectDist_ok)

lemma speciesCount_projection [simp]: "speciesCount (distProjection e) = speciesCount e"
  by (simp add: speciesCount_def distProjection_def)

lemma countedEntry_projection [simp]: "countedEntry (distProjection e) = countedEntry e"
  by (simp add: countedEntry_def distProjection_def)

lemma positive_compareDist:
  "countedEntry a \<Longrightarrow> countedEntry b \<Longrightarrow>
     positive (compareDist a b) \<longleftrightarrow> \<not> (- speciesCount a \<le> - speciesCount b)"
  by (auto simp: countedEntry_def compareDist_def positive_def jsMinus_def nullishElse_def
      speciesCount_def Let_def split: jsval.splits)

lemma insertBy_insort_key:
  "countedEntry a \<Longrightarrow> \<forall>x\<in>set xs. countedEntry x \<Longrightarrow>
     insertBy compareDist a xs = insort_key (\<lambda>e. - speciesCount e) a xs"
  by (induction xs) (simp_all add: positive_compareDist)

lemma jsSort_sort_key:
  "\<forall>x\<in>set xs. countedEntry x \<Longrightarrow> jsSort compareDist xs = sort_key (\<lambda>e. - speciesCount e) xs"
proof (induction xs)
  case Nil
  then show ?case by (simp add: jsSort_def)
next
  case (Cons a xs)
  then have "jsSort compareDist xs = sort_key (\<lambda>e. - speciesCount e) xs" by simp
  moreover have "\<forall>x\<in>set (sort_key (\<lambda>e. - speciesCount e) xs). countedEntry x"
    using Cons.prems by simp
  ultimately show ?case
    using Cons.prems by (simp add: jsSort_def insertBy_insort_key)
qed

lemma jsSort_projected:
  "\<forall>e\<in>set ds. countedEntry e \<Longrightarrow>
     slice0 5 (jsSort compareDist (map distProjection ds)) = topDistributions ds"
  by (simp add: jsSort_sort_key topDistributions_def sortedDistributions_def slice0_def)



section \<open>The collection trimmers\<close>

subsection \<open>findFirstSourceWithUrl\<close>

lemma firstWithUrl_cond:
  "(truthy s \<and> typeofObject s \<and> truthy (rd s ''url'')) = mappingWithUrl s"
  by (cases s) (simp_all add: mappingWithUrl_def)

lemma firstWithUrl_index:
  "i < length xs \<Longrightarrow> mappingWithUrl (xs ! i) \<Longrightarrow> \<forall>j<i. \<not> mappingWithUrl (xs ! j)
     \<Longrightarrow> firstWithUrl xs = xs ! i"
proof (induction xs arbitrary: i)
  case Nil
  then show ?case by simp
next
  case (Cons x xs)
  show ?case
  proof (cases i)
    case 0
    with Cons.prems show ?thesis by (simp add: firstWithUrl_cond del: rd.simps)
  next
    case (Suc n)
    with Cons.prems have "\<not> mappingWithUrl x" by auto
    moreover from Suc Cons.prems have "firstWithUrl xs = xs ! n"
      by (intro Cons.IH) auto
    ultimately show ?thesis using Suc by (simp add: firstWithUrl_cond del: rd.simps)
  qed
qed

lemma firstWithUrl_none:
  "\<forall>x\<in>set xs. \<not> mappingWithUrl x \<Longrightarrow> firstWithUrl xs = JNull"
  by (induction xs) (simp_all add: firstWithUrl_cond del: rd.simps)

lemma firstWithUrl_result:
  "firstWithUrl xs = JNull \<or> (firstWithUrl xs \<in> set xs \<and> mappingWithUrl (firstWithUrl xs))"
  by (induction xs) (auto simp: firstWithUrl_cond simp del: rd.simps)

text \<open>
  Claim C8.  \<open>findFirstSourceWithUrl\<close> returns the entry at the smallest index that is a
  mapping with a truthy \<open>url\<close>; \<open>null\<close> and non-mapping entries before it are skipped.
  When the input is not an array (\<open>null\<close>, \<open>undefined\<close>, a string, ...), is empty or has
  no such entry, the result is \<open>null\<close>.  The result is never an array.
\<close>

theorem findFirstSourceWithUrl_first:
  "(\<forall>xs i. sources = JArr xs \<and> i < length xs \<and> mappingWithUrl (xs ! i)
        \<and> (\<forall>j<i. \<not> mappingWithUrl (xs ! j))
      \<longrightarrow> findFirstSourceWithUrl sources = xs ! i)
   \<and> (\<forall>xs. sources = JArr xs \<and> (\<forall>x\<in>set xs. \<not> mappingWithUrl x)
      \<longrightarrow> findFirstSourceWithUrl sources = JNull)
   \<and> (\<not> isArray sources \<longrightarrow> findFirstSourceWithUrl sources = JNull)
   \<and> \<not> isArray (findFirstSourceWithUrl sources)"
proof (cases sources)
  case (JArr xs)
  have "\<not> isArray (firstWithUrl xs)"
    using firstWithUrl_result [of xs] by (auto simp: mappingWithUrl_def split: jsval.splits)
  then show ?thesis
    using JArr by (auto simp: findFirstSourceWithUrl_def firstWithUrl_index firstWithUrl_none)
qed (simp_all add: findFirstSourceWithUrl_def)

theorem findFirstSourceWithUrl_first_witness:
  "findFirstSourceWithUrl (JArr [JNull, JStr ''x'', JObj [(''name'', JStr ''A'')],
       JObj [(''name'', JStr ''B''), (''url'', JStr ''https://b'')],
       JObj [(''name'', JStr ''C''), (''url'', JStr ''https://c'')]])
     = JObj [(''name'', JStr ''B''), (''url'', JStr ''https://b'')]
   \<and> findFirstSourceWithUrl (JArr [JNull, JObj [(''url'', JStr [])]]) = JNull
   \<and> findFirstSourceWithUrl (JStr ''https://b'') = JNull"
proof -
  let ?xs = "[JNull, JStr ''x'', JObj [(''name'', JStr ''A'')],
       JObj [(''name'', JStr ''B''), (''url'', JStr ''https://b'')],
       JObj [(''name'', JStr ''C''), (''url'', JStr ''https://c'')]]"
  let ?ys = "[JNull, JObj [(''url'', JStr [])]]"
  have "JArr ?xs = JArr ?xs \<and> Suc (Suc (Suc 0)) < length ?xs
      \<and> mappingWithUrl (?xs ! Suc (Suc (Suc 0)))
      \<and> (\<forall>j<Suc (Suc (Suc 0)). \<not> mappingWithUrl (?xs ! j))"
    by (simp add: mappingWithUrl_def less_Suc_eq)
  with findFirstSourceWithUrl_first [of "JArr ?xs"]
  have "findFirstSourceWithUrl (JArr ?xs) = ?xs ! Suc (Suc (Suc 0))"
    by blast
  moreover have "JArr ?ys = JArr ?ys \<and> (\<forall>x\<in>set ?ys. \<not> mappingWithUrl x)"
    by (simp add: mappingWithUrl_def)
  with findFirstSourceWithUrl_first [of "JArr ?ys"]
  have "findFirstSourceWithUrl (JArr ?ys) = JNull"
    by blast
  moreover have "\<not> isArray (JStr ''https://b'')"
    by simp
  with findFirstSourceWithUrl_first [of "JStr ''https://b''"]
  have "findFirstSourceWithUrl (JStr ''https://b'') = JNull"
    by blast
  ultimately show ?thesis by simp
qed

subsection \<open>trimPlantSynonyms, as a function of values\<close>

lemma rd_assign_same: "rd (JObj (assign k v kvs)) k = v"
  by (simp add: assign_def update_conv')

lemma rd_assign_other: "k' \<noteq> k \<Longrightarrow> rd (JObj (assign k v kvs)) k' = rd (JObj kvs) k'"
  by (simp add: assign_def update_conv')

lemma keys_assign_present:
  "k \<in> fst ` set kvs \<Longrightarrow> map fst (assign k v kvs) = map fst kvs"
  by (simp add: assign_def update_keys)

lemma rd_array_present:
  "rd (JObj kvs) k = JArr xs \<Longrightarrow> k \<in> fst ` set kvs"
  by (auto split: option.splits dest: map_of_SomeD intro: rev_image_eqI)

lemma slice0_nonneg: "0 \<le> e \<Longrightarrow> slice0 e xs = take (nat e) xs"
  by (simp add: slice0_def)

lemma trimPlant_record:
  assumes "0 \<le> m"
  shows "\<exists>kvs'. trimPlant m (JObj kvs) = JObj kvs' \<and> map fst kvs' = map fst kvs
     \<and> (\<forall>k. k \<noteq> ''synonyms'' \<longrightarrow> rd (JObj kvs') k = rd (JObj kvs) k)
     \<and> (case rd (JObj kvs) ''synonyms'' of
           JArr syns \<Rightarrow> rd (JObj kvs') ''synonyms'' = JArr (take (nat m) syns)
         | other \<Rightarrow> kvs' = kvs)"
proof (cases "rd (JObj kvs) ''synonyms''")
  case (JArr syns)
  show ?thesis
  proof (cases "int (length syns) > m")
    case True
    with JArr assms show ?thesis
      unfolding trimPlant_def Let_def
      by (simp add: slice0_nonneg rd_assign_same rd_assign_other keys_assign_present
          rd_array_present del: rd.simps)
  next
    case False
    with JArr assms show ?thesis
      unfolding trimPlant_def Let_def by (simp del: rd.simps)
  qed
qed (simp_all add: trimPlant_def del: rd.simps)

lemma trimPlantSynonyms_records:
  assumes "0 \<le> maxSynonyms"
  shows "\<exists>out. trimPlantSynonyms (JArr plants) maxSynonyms = JArr out
     \<and> length out = length plants
     \<and> (\<forall>i<length plants. \<forall>kvs. plants ! i = JObj kvs \<longrightarrow>
          (\<exists>kvs'. out ! i = JObj kvs' \<and> map fst kvs' = map fst kvs
             \<and> (\<forall>k. k \<noteq> ''synonyms'' \<longrightarrow> rd (out ! i) k = rd (plants ! i) k)
             \<and> (case rd (plants ! i) ''synonyms'' of
                   JArr syns \<Rightarrow>
                     rd (out ! i) ''synonyms'' = JArr (take (nat maxSynonyms) syns)
                     \<and> int (length (take (nat maxSynonyms) syns))
                         = min (int (length syns)) maxSynonyms
                 | other \<Rightarrow> out ! i = plants ! i)))"
proof -
  have eq: "trimPlantSynonyms (JArr plants) maxSynonyms = JArr (map (trimPlant maxSynonyms) plants)"
    by (simp add: trimPlantSynonyms_def)
  have "\<exists>kvs'. map (trimPlant maxSynonyms) plants ! i = JObj kvs' \<and> map fst kvs' = map fst kvs
             \<and> (\<forall>k. k \<noteq> ''synonyms'' \<longrightarrow> rd (map (trimPlant maxSynonyms) plants ! i) k = rd (plants ! i) k)
             \<and> (case rd (plants ! i) ''synonyms'' of
                   JArr syns \<Rightarrow>
                     rd (map (trimPlant maxSynonyms) plants ! i) ''synonyms'' = JArr (take (nat maxSynonyms) syns)
                     \<and> int (length (take (nat maxSynonyms) syns))
                         = min (int (length syns)) maxSynonyms
                 | other \<Rightarrow> map (trimPlant maxSynonyms) plants ! i = plants ! i)"
    if "i < length plants" "plants ! i = JObj kvs" for i kvs
  proof -
    from trimPlant_record [OF assms, of kvs] obtain kvs' where
      k: "trimPlant maxSynonyms (JObj kvs) = JObj kvs'" "map fst kvs' = map fst kvs"
        "\<forall>k. k \<noteq> ''synonyms'' \<longrightarrow> rd (JObj kvs') k = rd (JObj kvs) k"
        "case rd (JObj kvs) ''synonyms'' of
           JArr syns \<Rightarrow> rd (JObj kvs') ''synonyms'' = JArr (take (nat maxSynonyms) syns)
         | other \<Rightarrow> kvs' = kvs"
      by blast
    have len: "int (min (length syns) (nat maxSynonyms)) = min (int (length syns)) maxSynonyms"
      for syns :: "jsval list"
      using assms by linarith
    from k that show ?thesis
      by (cases "rd (JObj kvs) ''synonyms''") (simp_all add: len del: rd.simps)
  qed
  with eq show ?thesis by auto
qed


subsection \<open>trimPlantSynonyms on the store\<close>

lemma unchanged_refl: "unchanged s s"
  by (simp add: unchanged_def)

lemma unchanged_trans: "unchanged s s1 \<Longrightarrow> unchanged s1 s2 \<Longrightarrow> unchanged s s2"
  by (auto simp: unchanged_def)

lemma repr_unchanged:
  "repr s h v \<Longrightarrow> unchanged s s' \<Longrightarrow> repr s' h v"
proof (induction rule: repr.induct)
  case (repr_prim v)
  then show ?case by (simp add: repr.repr_prim)
next
  case (repr_arr a hs vs)
  from repr_arr.IH repr_arr.prems have "list_all2 (repr s') hs vs"
    by (auto elim!: list_all2_mono)
  with repr_arr.hyps repr_arr.prems show ?case
    by (auto simp: unchanged_def intro!: repr.repr_arr)
next
  case (repr_obj a hkvs kvs)
  from repr_obj.IH repr_obj.prems
  have "list_all2 (\<lambda>hkv kv. fst hkv = fst kv \<and> repr s' (snd hkv) (snd kv)) hkvs kvs"
    by (auto elim!: list_all2_mono)
  with repr_obj.hyps repr_obj.prems show ?case
    by (auto simp: unchanged_def intro!: repr.repr_obj)
qed

lemma repr_entries:
  "repr s h v \<Longrightarrow>
     list_all2 (\<lambda>hkv kv. fst hkv = fst kv \<and> repr s (snd hkv) (snd kv)) (sEntries s h) (entries v)"
proof (induction rule: repr.cases)
  case (repr_prim v)
  then show ?case
    by (cases v) (auto simp: primitive_def list_all2_conv_all_nth intro: repr.repr_prim)
next
  case (repr_arr a hs vs)
  then show ?case
    by (auto simp: list_all2_conv_all_nth)
next
  case (repr_obj a hkvs kvs)
  then show ?case by simp
qed

lemma repr_lookup:
  "list_all2 (\<lambda>hkv kv. fst hkv = fst kv \<and> repr s (snd hkv) (snd kv)) hkvs kvs \<Longrightarrow>
     rel_option (repr s) (map_of hkvs k) (map_of kvs k)"
  by (induction hkvs kvs rule: list_all2_induct) auto

lemma repr_update:
  "list_all2 (\<lambda>hkv kv. fst hkv = fst kv \<and> repr s (snd hkv) (snd kv)) hkvs kvs \<Longrightarrow>
   repr s h v \<Longrightarrow>
     list_all2 (\<lambda>hkv kv. fst hkv = fst kv \<and> repr s (snd hkv) (snd kv))
       (AList.update k h hkvs) (assign k v kvs)"
  unfolding assign_def
  by (induction hkvs kvs rule: list_all2_induct) auto


lemma repr_entries_unchanged:
  "repr s h v \<Longrightarrow> unchanged s s' \<Longrightarrow>
     list_all2 (\<lambda>hkv kv. fst hkv = fst kv \<and> repr s' (snd hkv) (snd kv)) (sEntries s h) (entries v)"
  by (drule repr_entries) (auto elim!: list_all2_mono intro: repr_unchanged)

lemma slice0_list_all2:
  "list_all2 P xs ys \<Longrightarrow> list_all2 P (slice0 m xs) (slice0 m ys)"
  by (auto simp: slice0_def list_all2_lengthD intro: list_all2_takeI)

lemma trimPlantS_correct:
  assumes r: "repr s h v" and t: "trimPlantS m s h = (h', s')"
  shows "unchanged s s' \<and> repr s' h' (trimPlant m v)"
proof -
  let ?props = "sEntries s h" and ?kvs = "entries v"
  let ?c = "length s" and ?s1 = "s @ [CObj (sEntries s h)]"
  let ?R = "\<lambda>st hkv kv. fst hkv = fst kv \<and> repr st (snd hkv) (snd kv)"
  have u1: "unchanged s ?s1"
    by (simp add: unchanged_def nth_append)
  have copy: "repr ?s1 (Ref ?c) (JObj ?kvs)"
    using repr_entries_unchanged [OF r u1] by (auto intro!: repr.repr_obj)
  have plain: "unchanged s s' \<and> repr s' h' (trimPlant m v)"
    if "trimPlantS m s h = (Ref ?c, ?s1)" and "trimPlant m v = JObj ?kvs"
    using that t u1 copy by simp
  from repr_lookup [OF repr_entries [OF r], of "''synonyms''"]
  have look: "rel_option (repr s) (map_of ?props ''synonyms'') (map_of ?kvs ''synonyms'')" .
  show ?thesis
  proof (cases "map_of ?kvs ''synonyms''")
    case None
    with look have "map_of ?props ''synonyms'' = None" by (simp add: option_rel_Some2)
    with None show ?thesis
      by (intro plain) (simp_all add: trimPlantS_def trimPlant_def alloc_def)
  next
    case (Some w)
    with look obtain hw where hw: "map_of ?props ''synonyms'' = Some hw" "repr s hw w"
      by (auto simp: option_rel_Some2)
    from hw(2) show ?thesis
    proof (cases rule: repr.cases)
      case repr_prim
      with hw Some show ?thesis
        by (intro plain) (auto simp: trimPlantS_def trimPlant_def alloc_def primitive_def
            split: jsval.splits)
    next
      case (repr_obj a hkvs kvs)
      with hw Some show ?thesis
        by (intro plain) (simp_all add: trimPlantS_def trimPlant_def alloc_def nth_append)
    next
      case (repr_arr a syns syns')
      then have la: "list_all2 (repr s) syns syns'"
        by simp
      then have len: "length syns = length syns'"
        by (simp add: list_all2_lengthD)
      show ?thesis
      proof (cases "int (length syns) > m")
        case False
        with repr_arr hw Some len show ?thesis
          by (intro plain) (simp_all add: trimPlantS_def trimPlant_def alloc_def nth_append)
      next
        case True
        let ?t = "Suc (length s)"
        let ?s2 = "?s1 @ [CArr (slice0 m syns)]"
        let ?new = "CObj (AList.update ''synonyms'' (Ref ?t) ?props)"
        let ?s' = "?s2[?c := ?new]"
        from True repr_arr hw have res: "trimPlantS m s h = (Ref ?c, ?s')"
          by (simp add: trimPlantS_def alloc_def nth_append)
        from True repr_arr Some len
        have pure: "trimPlant m v = JObj (assign ''synonyms'' (JArr (slice0 m syns')) ?kvs)"
          by (simp add: trimPlant_def)
        have u: "unchanged s ?s'"
          by (auto simp: unchanged_def nth_append)
        have "list_all2 (repr ?s') syns syns'"
          using la u by (auto elim!: list_all2_mono intro: repr_unchanged)
        then have "list_all2 (repr ?s') (slice0 m syns) (slice0 m syns')"
          by (rule slice0_list_all2)
        then have sl: "repr ?s' (Ref ?t) (JArr (slice0 m syns'))"
          by (auto intro!: repr.repr_arr simp: nth_append)
        have "list_all2 (?R ?s') (AList.update ''synonyms'' (Ref ?t) ?props)
            (assign ''synonyms'' (JArr (slice0 m syns')) ?kvs)"
          using repr_entries_unchanged [OF r u] sl by (rule repr_update)
        then have "repr ?s' (Ref ?c) (JObj (assign ''synonyms'' (JArr (slice0 m syns')) ?kvs))"
          by (auto intro!: repr.repr_obj simp: nth_append)
        with res pure u t show ?thesis
          by simp
      qed
    qed
  qed
qed


lemma mapStore_correct:
  "list_all2 (repr s) hs vs \<Longrightarrow> mapStore (trimPlantS m) s hs = (out, s') \<Longrightarrow>
     unchanged s s' \<and> list_all2 (repr s') out (map (trimPlant m) vs)"
proof (induction hs arbitrary: vs s out s')
  case Nil
  then show ?case by (simp add: unchanged_refl)
next
  case (Cons h hs)
  from Cons.prems(1) obtain v vs' where vs: "vs = v # vs'" "repr s h v" "list_all2 (repr s) hs vs'"
    by (auto simp: list_all2_Cons1)
  obtain h' s1 where f: "trimPlantS m s h = (h', s1)"
    by (cases "trimPlantS m s h")
  obtain hs' s2 where rest: "mapStore (trimPlantS m) s1 hs = (hs', s2)"
    by (cases "mapStore (trimPlantS m) s1 hs")
  from trimPlantS_correct [OF vs(2) f] have u1: "unchanged s s1" and r1: "repr s1 h' (trimPlant m v)"
    by simp_all
  from vs(3) u1 have "list_all2 (repr s1) hs vs'"
    by (auto elim!: list_all2_mono intro: repr_unchanged)
  from Cons.IH [OF this rest] have u2: "unchanged s1 s2"
    and r2: "list_all2 (repr s2) hs' (map (trimPlant m) vs')"
    by simp_all
  from Cons.prems(2) f rest have "out = h' # hs'" "s' = s2"
    by simp_all
  with u1 u2 r1 r2 vs(1) show ?case
    by (auto intro: unchanged_trans repr_unchanged)
qed


text \<open>
  Claim C7.  Let the input sequence of records live in a store, and let the maximum not
  be negative.  Then \<open>trimPlantSynonyms\<close> returns a new sequence (a cell that did not
  exist before) and leaves every cell that existed before the call as it was, so that
  the input sequence and its records still stand for the same values: the input is never
  mutated.  The new sequence has one record per input record, with the same keys and the
  same fields other than \<open>synonyms\<close>; a \<open>synonyms\<close> list of length \<open>L\<close> has become its
  prefix of length \<open>min L maxSynonyms\<close>, in the original order; a record whose
  \<open>synonyms\<close> is absent or not a list is equal to the input record, the field left as
  it was.
\<close>

theorem trimPlantSynonymsS_prefix:
  assumes "0 \<le> maxSynonyms" and "repr s plants (JArr records)"
  shows "\<exists>res s' out. trimPlantSynonymsS s plants maxSynonyms = (res, s')
     \<and> unchanged s s'
     \<and> repr s' plants (JArr records)
     \<and> (\<exists>a. res = Ref a \<and> length s \<le> a)
     \<and> repr s' res (JArr out)
     \<and> JArr out = trimPlantSynonyms (JArr records) maxSynonyms
     \<and> length out = length records
     \<and> (\<forall>i<length records. \<forall>kvs. records ! i = JObj kvs \<longrightarrow>
          (\<exists>kvs'. out ! i = JObj kvs' \<and> map fst kvs' = map fst kvs
             \<and> (\<forall>k. k \<noteq> ''synonyms'' \<longrightarrow> rd (out ! i) k = rd (records ! i) k)
             \<and> (case rd (records ! i) ''synonyms'' of
                   JArr syns \<Rightarrow>
                     rd (out ! i) ''synonyms'' = JArr (take (nat maxSynonyms) syns)
                     \<and> int (length (take (nat maxSynonyms) syns))
                         = min (int (length syns)) maxSynonyms
                 | other \<Rightarrow> out ! i = records ! i)))"
proof -
  from assms(2) obtain a hs where a: "plants = Ref a" "a < length s" "s ! a = CArr hs"
    "list_all2 (repr s) hs records"
    by (cases rule: repr.cases) (auto simp: primitive_def)
  obtain out s1 where m: "mapStore (trimPlantS maxSynonyms) s hs = (out, s1)"
    by (cases "mapStore (trimPlantS maxSynonyms) s hs")
  let ?out = "map (trimPlant maxSynonyms) records"
  let ?s' = "s1 @ [CArr out]"
  from mapStore_correct [OF a(4) m] have u1: "unchanged s s1"
    and r1: "list_all2 (repr s1) out ?out"
    by simp_all
  have u2: "unchanged s1 ?s'"
    by (simp add: unchanged_def nth_append)
  from u1 u2 have u: "unchanged s ?s'"
    by (rule unchanged_trans)
  from a m have res: "trimPlantSynonymsS s plants maxSynonyms = (Ref (length s1), ?s')"
    by (simp add: trimPlantSynonymsS_def alloc_def)
  from assms(2) u have inp: "repr ?s' plants (JArr records)"
    by (rule repr_unchanged)
  from u1 have fresh: "\<exists>b. Ref (length s1) = Ref b \<and> length s \<le> b"
    by (simp add: unchanged_def)
  from r1 u2 have "list_all2 (repr ?s') out ?out"
    by (auto elim!: list_all2_mono intro: repr_unchanged)
  then have rep: "repr ?s' (Ref (length s1)) (JArr ?out)"
    by (auto intro!: repr.repr_arr simp: nth_append)
  have eq: "JArr ?out = trimPlantSynonyms (JArr records) maxSynonyms"
    by (simp add: trimPlantSynonyms_def)
  from trimPlantSynonyms_records [OF assms(1), of records]
  have recs: "length ?out = length records
     \<and> (\<forall>i<length records. \<forall>kvs. records ! i = JObj kvs \<longrightarrow>
          (\<exists>kvs'. ?out ! i = JObj kvs' \<and> map fst kvs' = map fst kvs
             \<and> (\<forall>k. k \<noteq> ''synonyms'' \<longrightarrow> rd (?out ! i) k = rd (records ! i) k)
             \<and> (case rd (records ! i) ''synonyms'' of
                   JArr syns \<Rightarrow>
                     rd (?out ! i) ''synonyms'' = JArr (take (nat maxSynonyms) syns)
                     \<and> int (length (take (nat maxSynonyms) syns))
                         = min (int (length syns)) maxSynonyms
                 | other \<Rightarrow> ?out ! i = records ! i)))"
    unfolding eq [symmetric] by (simp del: rd.simps length_take)
  show ?thesis
    apply (rule exI [of _ "Ref (length s1)"])
    apply (rule exI [of _ ?s'])
    apply (rule exI [of _ ?out])
    apply (intro conjI res u inp fresh rep eq)
    using recs apply blast
    using recs apply blast
    done
qed


theorem trimPlantSynonymsS_prefix_witness:
  "(0::int) \<le> 2
   \<and> repr [CArr [Ref 1, Ref 3],
            CObj [(''slug'', Prim (JStr ''oak'')), (''synonyms'', Ref 2)],
            CArr [Prim (JStr ''a''), Prim (JStr ''b''), Prim (JStr ''c'')],
            CObj [(''id'', Prim (JNum 7))]]
        (Ref 0)
        (JArr [JObj [(''slug'', JStr ''oak''), (''synonyms'', JArr [JStr ''a'', JStr ''b'', JStr ''c''])],
               JObj [(''id'', JNum 7)]])
   \<and> (\<exists>res s'. trimPlantSynonymsS
          [CArr [Ref 1, Ref 3],
           CObj [(''slug'', Prim (JStr ''oak'')), (''synonyms'', Ref 2)],
           CArr [Prim (JStr ''a''), Prim (JStr ''b''), Prim (JStr ''c'')],
           CObj [(''id'', Prim (JNum 7))]] (Ref 0) 2 = (res, s')
        \<and> unchanged [CArr [Ref 1, Ref 3],
           CObj [(''slug'', Prim (JStr ''oak'')), (''synonyms'', Ref 2)],
           CArr [Prim (JStr ''a''), Prim (JStr ''b''), Prim (JStr ''c'')],
           CObj [(''id'', Prim (JNum 7))]] s'
        \<and> repr s' res
             (JArr [JObj [(''slug'', JStr ''oak''), (''synonyms'', JArr [JStr ''a'', JStr ''b''])],
                    JObj [(''id'', JNum 7)]]))"
proof -
  let ?s = "[CArr [Ref 1, Ref 3],
            CObj [(''slug'', Prim (JStr ''oak'')), (''synonyms'', Ref 2)],
            CArr [Prim (JStr ''a''), Prim (JStr ''b''), Prim (JStr ''c'')],
            CObj [(''id'', Prim (JNum 7))]]"
  let ?records = "[JObj [(''slug'', JStr ''oak''), (''synonyms'', JArr [JStr ''a'', JStr ''b'', JStr ''c''])],
               JObj [(''id'', JNum 7)]]"
  have m: "(0::int) \<le> 2"
    by simp
  have syn: "repr ?s (Ref 2) (JArr [JStr ''a'', JStr ''b'', JStr ''c''])"
    by (rule repr.repr_arr [where hs = "[Prim (JStr ''a''), Prim (JStr ''b''), Prim (JStr ''c'')]"])
      (simp_all add: repr.repr_prim primitive_def)
  have p1: "repr ?s (Ref 1) (?records ! 0)"
    using syn
    by (simp, intro repr.repr_obj [where hkvs = "[(''slug'', Prim (JStr ''oak'')), (''synonyms'', Ref 2)]"])
      (simp_all add: repr.repr_prim primitive_def)
  have p2: "repr ?s (Ref 3) (?records ! 1)"
    by (simp, intro repr.repr_obj [where hkvs = "[(''id'', Prim (JNum 7))]"])
      (simp_all add: repr.repr_prim primitive_def)
  have r: "repr ?s (Ref 0) (JArr ?records)"
    using p1 p2 by (intro repr.repr_arr [where hs = "[Ref 1, Ref 3]"]) simp_all
  have t: "trimPlantSynonyms (JArr ?records) 2
      = JArr [JObj [(''slug'', JStr ''oak''), (''synonyms'', JArr [JStr ''a'', JStr ''b''])],
                    JObj [(''id'', JNum 7)]]"
    by (simp add: trimPlantSynonyms_def trimPlant_def assign_def slice0_def)
  from trimPlantSynonymsS_prefix [OF m r] obtain res s' out where
    "trimPlantSynonymsS ?s (Ref 0) 2 = (res, s')" "unchanged ?s s'" "repr s' res (JArr out)"
    "JArr out = trimPlantSynonyms (JArr ?records) 2"
    by blast
  with m r t show ?thesis
    by (metis (no_types))
qed


section \<open>The record flattener\<close>

subsection \<open>The assignments as a table\<close>

lemma map_of_rev_distinct: "distinct (map fst xs) \<Longrightarrow> map_of (rev xs) = map_of xs"
  by (subst map_of_inject_set) (simp_all flip: rev_map)

lemma optChain_orElse: "optChain x k = rd (orElse x (JObj [])) k"
  by (cases x) (simp_all add: optChain_def orElse_def)

lemma follow_None_readPath:
  "follow v ks = None \<Longrightarrow> readPath v ks = JUndefined"
proof (induction v ks rule: readPath.induct)
  case (1 v)
  then show ?case by simp
next
  case (2 v k)
  then show ?case by (cases v) (simp_all split: option.splits)
next
  case (3 v k k' ks)
  have "follow (orElse (rd v k) (JObj [])) (k' # ks) = None"
  proof (cases v)
    case (JObj kvs)
    show ?thesis
    proof (cases "map_of kvs k")
      case None
      with JObj show ?thesis by (simp add: orElse_def)
    next
      case (Some w)
      with JObj "3.prems" have "follow w (k' # ks) = None" by simp
      with JObj Some show ?thesis by (simp add: orElse_def)
    qed
  qed (simp_all add: orElse_def)
  with "3.IH" show ?case by simp
qed

lemma mainSpecies_table:
  "map (\<lambda>p. (p, rd ms p)) mainSpeciesProps = tableAssignments ms mainSpeciesTable"
  by (simp add: mainSpeciesProps_def mainSpeciesTable_def tableAssignments_def)

lemma group_table: "flowerFoliageFruit ms = tableAssignments ms groupTable"
  by (simp add: flowerFoliageFruit_def groupTable_def tableAssignments_def Let_def)

lemma spec_table: "specFields ms = tableAssignments ms specTable"
  by (simp add: specFields_def specTable_def tableAssignments_def Let_def optChain_orElse)

lemma growth_table: "growthFields ms = tableAssignments ms growthTable"
  by (simp add: growthFields_def growthTable_def tableAssignments_def Let_def optChain_orElse)

lemma detailAssignments_tables:
  "detailAssignments ms ti td =
     tableAssignments ms mainSpeciesTable
     @ [(''images'', JObj ti), (''distributions'', JObj td)]
     @ tableAssignments ms groupTable
     @ [(''source'', findFirstSourceWithUrl (orElse (rd ms ''sources'') (JArr [])))]
     @ tableAssignments ms specTable
     @ tableAssignments ms growthTable
     @ genusFamily ms"
  by (simp only: detailAssignments_def mainSpecies_table group_table spec_table growth_table)

lemma fst_tableAssignments: "map fst (tableAssignments ms tab) = map fst tab"
  by (simp add: tableAssignments_def case_prod_unfold)


lemma detailKeys_distinct: "distinct (map fst (detailAssignments ms ti td))"
  by (simp add: detailAssignments_tables fst_tableAssignments mainSpeciesTable_def groupTable_def
      specTable_def growthTable_def genusFamily_def)

lemma summaryKeys_distinct: "distinct (map fst (summaryAssignments p))"
  by (simp add: summaryAssignments_def rootProps_def comp_def)

lemma rd_flat:
  "rd (JObj (assignAll (flatAssignments p ms ti td) [])) k =
     (case map_of (detailAssignments ms ti td) k of
        Some v \<Rightarrow> v
      | None \<Rightarrow> (case map_of (summaryAssignments p) k of Some v \<Rightarrow> v | None \<Rightarrow> JUndefined))"
  by (simp add: map_of_assignAll flatAssignments_def map_of_rev_distinct detailKeys_distinct
      summaryKeys_distinct map_add_def split: option.splits)

lemma rd_flat_detail:
  "(k, v) \<in> set (detailAssignments ms ti td) \<Longrightarrow>
     rd (JObj (assignAll (flatAssignments p ms ti td) [])) k = v"
  by (simp add: rd_flat detailKeys_distinct del: rd.simps)

lemma rd_flat_table:
  "(k, path) \<in> set detailTable \<Longrightarrow>
     rd (JObj (assignAll (flatAssignments p ms ti td) [])) k = readPath ms path"
proof (rule rd_flat_detail)
  assume "(k, path) \<in> set detailTable"
  then have "(k, readPath ms path) \<in> set (tableAssignments ms detailTable)"
    by (force simp: tableAssignments_def)
  then show "(k, readPath ms path) \<in> set (detailAssignments ms ti td)"
    by (auto simp: detailAssignments_tables detailTable_def tableAssignments_def)
qed

lemma rd_flat_images:
  "rd (JObj (assignAll (flatAssignments p ms ti td) [])) ''images'' = JObj ti"
  by (rule rd_flat_detail) (simp add: detailAssignments_tables)

lemma rd_flat_distributions:
  "rd (JObj (assignAll (flatAssignments p ms ti td) [])) ''distributions'' = JObj td"
  by (rule rd_flat_detail) (simp add: detailAssignments_tables)

lemma rd_flat_source:
  "rd (JObj (assignAll (flatAssignments p ms ti td) [])) ''source''
     = findFirstSourceWithUrl (orElse (rd ms ''sources'') (JArr []))"
  by (rule rd_flat_detail) (simp add: detailAssignments_tables)

lemma rd_flat_genus:
  "rd (JObj (assignAll (flatAssignments p ms ti td) [])) ''genus''
     = nameOf (orElse (rd ms ''genus'') (JObj []))"
  by (rule rd_flat_detail) (simp add: detailAssignments_tables genusFamily_def)

lemma rd_flat_family:
  "rd (JObj (assignAll (flatAssignments p ms ti td) [])) ''family''
     = nameOf (orElse (rd ms ''family'') (JObj []))"
  by (rule rd_flat_detail) (simp add: detailAssignments_tables genusFamily_def)


lemma summaryKeys_not_detail:
  "k \<in> set summaryKeys \<Longrightarrow> map_of (detailAssignments ms ti td) k = None"
proof -
  have "set summaryKeys \<inter> set (map fst (detailAssignments ms ti td)) = {}"
    by (simp add: detailAssignments_tables fst_tableAssignments mainSpeciesTable_def groupTable_def
        specTable_def growthTable_def genusFamily_def summaryKeys_def)
  then show "k \<in> set summaryKeys \<Longrightarrow> map_of (detailAssignments ms ti td) k = None"
    by (auto simp: map_of_eq_None_iff)
qed

lemma summaryKeys_root: "set summaryKeys \<subseteq> set rootProps"
  by (simp add: summaryKeys_def rootProps_def)

lemma synonyms_not_root: "''synonyms'' \<notin> set rootProps"
  by (simp add: rootProps_def)

lemma map_of_summaryAssignments:
  "k \<in> set rootProps \<Longrightarrow> map_of (summaryAssignments p) k = Some (rd p k)"
  using synonyms_not_root
  by (auto simp: summaryAssignments_def map_of_map_restrict map_add_def restrict_map_def)

lemma rd_flat_summary:
  "k \<in> set summaryKeys \<Longrightarrow> rd (JObj (assignAll (flatAssignments p ms ti td) [])) k = rd p k"
  using summaryKeys_root
  by (auto simp: rd_flat summaryKeys_not_detail map_of_summaryAssignments simp del: rd.simps)

lemma synonyms_not_detail: "map_of (detailAssignments ms ti td) ''synonyms'' = None"
proof -
  have "''synonyms'' \<notin> set (map fst (detailAssignments ms ti td))"
    by (simp add: detailAssignments_tables fst_tableAssignments mainSpeciesTable_def groupTable_def
        specTable_def growthTable_def genusFamily_def)
  then show ?thesis
    by (simp add: map_of_eq_None_iff)
qed

lemma rd_flat_synonyms:
  "rd (JObj (assignAll (flatAssignments p ms ti td) [])) ''synonyms''
     = topSynonyms (orElse (rd p ''synonyms'') (JArr []))"
  using synonyms_not_root
  by (simp add: rd_flat synonyms_not_detail summaryAssignments_def map_add_def map_of_map_restrict
      restrict_map_def del: rd.simps)

lemma keys_assign: "set (map fst (assign k v kvs)) = insert k (set (map fst kvs))"
  by (auto simp: assign_def update_keys)

lemma distinct_assign: "distinct (map fst kvs) \<Longrightarrow> distinct (map fst (assign k v kvs))"
  by (simp add: assign_def distinct_update)

lemma keys_assignAll:
  "set (map fst (assignAll L fl)) = set (map fst fl) \<union> set (map fst L)"
proof (induction L arbitrary: fl)
  case Nil
  then show ?case by simp
next
  case (Cons a L)
  obtain k v where "a = (k, v)" by (cases a)
  with Cons.IH [of "assign k v fl"] show ?case
    by (simp add: keys_assign del: set_map)
qed

lemma distinct_assignAll:
  "distinct (map fst fl) \<Longrightarrow> distinct (map fst (assignAll L fl))"
proof (induction L arbitrary: fl)
  case Nil
  then show ?case by simp
next
  case (Cons a L)
  obtain k v where "a = (k, v)" by (cases a)
  with Cons show ?case by (simp add: distinct_assign)
qed

lemma flatAssignments_keys: "map fst (flatAssignments p ms ti td) = ruleKeys"
  by (simp add: flatAssignments_def summaryAssignments_def detailAssignments_tables
      fst_tableAssignments ruleKeys_def genusFamily_def comp_def)

lemma flat_keys:
  "set (map fst (assignAll (flatAssignments p ms ti td) [])) = set ruleKeys
   \<and> distinct (map fst (assignAll (flatAssignments p ms ti td) []))"
  by (simp add: keys_assignAll distinct_assignAll flatAssignments_keys del: set_map)


subsection \<open>The image and distribution loops\<close>

lemma slice0_numeral [simp]: "slice0 (numeral n) xs = take (numeral n) xs"
  by (simp add: slice0_def)

lemma projectImage_ok: "img \<noteq> JNull \<Longrightarrow> \<exists>v. projectImage img = Inr v"
  by (cases img) (simp_all add: projectImage_def)

lemma mapE_projectImage_ok:
  "list_all (\<lambda>img. img \<noteq> JNull) imgs \<Longrightarrow> \<exists>ps. mapE projectImage imgs = Inr ps"
proof (induction imgs)
  case Nil
  then show ?case by simp
next
  case (Cons img imgs)
  then obtain v ps where "projectImage img = Inr v" "mapE projectImage imgs = Inr ps"
    using projectImage_ok [of img] by auto
  then show ?case by simp
qed

lemma trimImages_ok:
  "list_all (\<lambda>(imageType, imageList).
         case imageList of
           JArr imgs \<Rightarrow> imageType = [] \<or> list_all (\<lambda>img. img \<noteq> JNull) (take 2 imgs)
         | other \<Rightarrow> True) es
   \<Longrightarrow> \<exists>ti. trimImages es acc = Inr ti"
proof (induction es arbitrary: acc)
  case Nil
  then show ?case by simp
next
  case (Cons a es)
  obtain imageType imageList where a: "a = (imageType, imageList)" by (cases a)
  from Cons.prems have rest: "\<And>acc'. \<exists>ti. trimImages es acc' = Inr ti"
    by (intro Cons.IH) simp
  show ?case
  proof (cases imageList)
    case (JArr imgs)
    show ?thesis
    proof (cases "imageType = []")
      case True
      with a rest show ?thesis by simp
    next
      case False
      with Cons.prems a JArr obtain ps where "mapE projectImage (take 2 imgs) = Inr ps"
        using mapE_projectImage_ok [of "take 2 imgs"] by auto
      with a JArr False rest show ?thesis by (simp add: Let_def)
    qed
  qed (use a rest in simp_all)
qed

lemma distEntry_Nil [simp]: "distEntry key [] = []"
  by (simp add: distEntry_def jsSort_def)

lemma assignAll_distEntry:
  "assignAll (distEntry key projected) acc =
     (if length (slice0 5 (jsSort compareDist projected)) > 0
      then assign key (JArr (slice0 5 (jsSort compareDist projected))) acc else acc)"
  by (simp add: distEntry_def Let_def)

lemma trimDistributions_round:
  "trimDistributions (distType # rest) D acc =
     bindE (mapE projectDist (distList D distType)) (\<lambda>projected.
       trimDistributions rest D (assignAll (distEntry distType projected) acc))"
proof (cases "orElse (rd D distType) (JArr [])")
  case (JArr ds)
  show ?thesis
  proof (cases "ds = []")
    case True
    with JArr show ?thesis by (simp add: distList_def)
  next
    case False
    with JArr show ?thesis
      by (simp add: distList_def assignAll_distEntry Let_def del: slice0_numeral)
  qed
qed (simp_all add: distList_def)

lemma trimDistributions_two:
  "trimDistributions [''native'', ''introduced''] D [] =
     bindE (mapE projectDist (distList D ''native'')) (\<lambda>pn.
     bindE (mapE projectDist (distList D ''introduced'')) (\<lambda>pi.
       Inr (distEntry ''native'' pn @ distEntry ''introduced'' pi)))"
proof -
  have "assignAll (distEntry ''introduced'' pi) (assignAll (distEntry ''native'' pn) [])
        = distEntry ''native'' pn @ distEntry ''introduced'' pi" for pn pi
    by (simp add: distEntry_def Let_def assign_def)
  then show ?thesis
    by (simp add: trimDistributions_round del: trimDistributions.simps(2))
qed

lemma trimDistributions_Inr:
  assumes "trimDistributions [''native'', ''introduced''] D [] = Inr td"
  shows "td = distEntry ''native'' (map distProjection (distList D ''native''))
            @ distEntry ''introduced'' (map distProjection (distList D ''introduced''))"
proof -
  from assms obtain pn pi where
    "mapE projectDist (distList D ''native'') = Inr pn"
    "mapE projectDist (distList D ''introduced'') = Inr pi"
    "td = distEntry ''native'' pn @ distEntry ''introduced'' pi"
    unfolding trimDistributions_two bindE_eq_Inr by auto
  then show ?thesis
    by (auto dest: mapE_projectDist_Inr)
qed

lemma trimDistributions_ok:
  assumes "list_all (\<lambda>e. \<not> nullish e) (distList D ''native'' @ distList D ''introduced'')"
  shows "\<exists>td. trimDistributions [''native'', ''introduced''] D [] = Inr td"
  using assms
  by (simp add: trimDistributions_two mapE_projectDist_ok list_all_iff
      del: trimDistributions.simps(2))

lemma map_of_distEntries:
  assumes "key = ''native'' \<or> key = ''introduced''"
  shows "map_of (distEntry ''native'' pn @ distEntry ''introduced'' pi) key
     = (let top = slice0 5 (jsSort compareDist (if key = ''native'' then pn else pi))
        in if top = [] then None else Some (JArr top))"
  using assms by (auto simp: distEntry_def Let_def)


lemma flattenPlantData_Inr:
  assumes "flattenPlantData p d = Inr flat"
  shows "\<exists>ti. trimImages (entries (imagesOf d)) [] = Inr ti
     \<and> flat = JObj (assignAll (flatAssignments p (mainSpeciesOf d) ti
           (distEntry ''native'' (map distProjection (distInput d ''native''))
            @ distEntry ''introduced'' (map distProjection (distInput d ''introduced'')))) [])"
proof -
  from assms obtain ti td where
    ti: "trimImages (entries (imagesOf d)) [] = Inr ti"
    and td: "trimDistributions [''native'', ''introduced''] (distributionsOf d) [] = Inr td"
    and flat: "flat = JObj (assignAll (flatAssignments p (mainSpeciesOf d) ti td) [])"
    unfolding flattenPlantData_unfold by (auto split: if_splits sum.splits)
  from trimDistributions_Inr [OF td] ti flat show ?thesis
    by (auto simp: distInput_def)
qed

lemma flattenPlantData_ok:
  assumes "\<not> nullish p" and "\<not> nullish d"
    and "nullFreeImages d" and "nullFreeDistributions d"
  shows "\<exists>flat. flattenPlantData p d = Inr (JObj flat)"
proof -
  from assms(3) obtain ti where
    "trimImages (entries (imagesOf d)) [] = Inr ti"
    unfolding nullFreeImages_def using trimImages_ok by blast
  moreover from assms(4) obtain td where
    "trimDistributions [''native'', ''introduced''] (distributionsOf d) [] = Inr td"
    unfolding nullFreeDistributions_def distInput_def using trimDistributions_ok by blast
  ultimately show ?thesis
    using assms(1,2) by (simp add: flattenPlantData_unfold)
qed

subsection \<open>The sorted distributions\<close>

lemma sortedDistributions_sorted:
  "sorted_wrt (\<lambda>a b. speciesCount a \<ge> speciesCount b) (sortedDistributions ds)"
proof -
  have "sorted (map (\<lambda>e. - speciesCount e) (sortedDistributions ds))"
    by (simp add: sortedDistributions_def)
  then show ?thesis
    by (simp add: sorted_map)
qed

lemma sortedDistributions_stable:
  "filter (\<lambda>e. speciesCount e = c) (sortedDistributions ds)
     = filter (\<lambda>e. speciesCount e = c) (map distProjection ds)"
proof -
  have "filter (\<lambda>e. - speciesCount e = - c) (sortedDistributions ds)
     = filter (\<lambda>e. - speciesCount e = - c) (map distProjection ds)"
    unfolding sortedDistributions_def by (rule sort_key_stable)
  then show ?thesis by simp
qed


subsection \<open>Missing source paths\<close>

lemma detailTable_paths: "(k, path) \<in> set detailTable \<Longrightarrow> path \<noteq> []"
  by (auto simp: detailTable_def mainSpeciesTable_def groupTable_def specTable_def growthTable_def)

lemma readPath_mainSpecies:
  "path \<noteq> [] \<Longrightarrow> readPath d (''main_species'' # path) = readPath (mainSpeciesOf d) path"
  by (cases path) (simp_all add: mainSpeciesOf_def)

lemma missing_detail_path:
  assumes "(k, path) \<in> set detailTable"
    and "follow d (''main_species'' # path) = None"
  shows "readPath (mainSpeciesOf d) path = JUndefined"
  using follow_None_readPath [OF assms(2)] detailTable_paths [OF assms(1)]
  by (simp add: readPath_mainSpecies del: readPath.simps)

lemma missing_ms_attribute:
  assumes "follow d [''main_species'', a] = None"
  shows "rd (mainSpeciesOf d) a = JUndefined"
  using follow_None_readPath [OF assms] by (simp add: mainSpeciesOf_def)

lemma missing_summary_key:
  "follow p [k] = None \<Longrightarrow> rd p k = JUndefined"
  using follow_None_readPath [of p "[k]"] by simp

lemma nameOf_default: "nameOf (orElse JUndefined (JObj [])) = JUndefined"
  by (simp add: nameOf_def orElse_def)

lemma images_default:
  "rd (mainSpeciesOf d) ''images'' = JUndefined \<Longrightarrow> trimImages (entries (imagesOf d)) [] = Inr []"
  by (simp add: imagesOf_def orElse_def)

lemma distributions_default:
  "rd (mainSpeciesOf d) ''distributions'' = JUndefined \<Longrightarrow>
     distEntry ''native'' (map distProjection (distInput d ''native''))
       @ distEntry ''introduced'' (map distProjection (distInput d ''introduced'')) = []"
  by (simp add: distInput_def distList_def distributionsOf_def orElse_def)

lemma source_default:
  "rd ms ''sources'' = JUndefined \<Longrightarrow>
     findFirstSourceWithUrl (orElse (rd ms ''sources'') (JArr [])) = JNull"
  by (simp add: orElse_def findFirstSourceWithUrl_def)


subsection \<open>Properties of flattenPlantData\<close>





text \<open>
  Claim C4.  Whenever \<open>flattenPlantData\<close> returns, for each of the keys \<open>native\<close> and
  \<open>introduced\<close> whose entries carry a \<open>species_count\<close> that is a number, \<open>null\<close> or
  missing: the value under the key in the output \<open>distributions\<close> mapping is the input
  sequence projected to \<open>{name, species_count}\<close>, sorted by non-increasing
  \<open>species_count\<close> (a missing count read as 0), entries of equal count in their original
  order, cut to the first five; and the key is present exactly when that sequence is not
  empty.
\<close>

theorem flattenPlantData_distributions:
  assumes "flattenPlantData paginatedData detailedData = Inr flat"
    and "key = ''native'' \<or> key = ''introduced''"
    and "\<forall>e\<in>set (distInput detailedData key). countedEntry e"
  shows "\<exists>dm. rd flat ''distributions'' = JObj dm
     \<and> map_of dm key =
         (if topDistributions (distInput detailedData key) = [] then None
          else Some (JArr (topDistributions (distInput detailedData key))))
     \<and> (key \<in> fst ` set dm \<longleftrightarrow> topDistributions (distInput detailedData key) \<noteq> [])
     \<and> topDistributions (distInput detailedData key)
         = take 5 (sortedDistributions (distInput detailedData key))
     \<and> length (topDistributions (distInput detailedData key)) \<le> 5
     \<and> sorted_wrt (\<lambda>a b. speciesCount a \<ge> speciesCount b)
           (sortedDistributions (distInput detailedData key))
     \<and> (\<forall>c. filter (\<lambda>e. speciesCount e = c) (sortedDistributions (distInput detailedData key))
            = filter (\<lambda>e. speciesCount e = c) (map distProjection (distInput detailedData key)))
     \<and> length (sortedDistributions (distInput detailedData key))
         = length (distInput detailedData key)"
proof -
  let ?dm = "distEntry ''native'' (map distProjection (distInput detailedData ''native''))
            @ distEntry ''introduced'' (map distProjection (distInput detailedData ''introduced''))"
  let ?top = "topDistributions (distInput detailedData key)"
  from flattenPlantData_Inr [OF assms(1)] have dm: "rd flat ''distributions'' = JObj ?dm"
    by (auto simp: rd_flat_distributions simp del: rd.simps)
  have top: "slice0 5 (jsSort compareDist (map distProjection (distInput detailedData key))) = ?top"
    using assms(3) by (rule jsSort_projected)
  have "(if key = ''native'' then map distProjection (distInput detailedData ''native'')
         else map distProjection (distInput detailedData ''introduced''))
        = map distProjection (distInput detailedData key)"
    using assms(2) by auto
  with map_of_distEntries [OF assms(2),
      of "map distProjection (distInput detailedData ''native'')"
         "map distProjection (distInput detailedData ''introduced'')"] top
  have look: "map_of ?dm key = (if ?top = [] then None else Some (JArr ?top))"
    by (simp only: Let_def)
  have none: "(map_of ?dm key = None) = (?top = [])"
    unfolding look by simp
  have "key \<in> fst ` set ?dm \<longleftrightarrow> \<not> (map_of ?dm key = None)"
    by (simp only: map_of_eq_None_iff not_not)
  also have "\<dots> \<longleftrightarrow> ?top \<noteq> []"
    by (simp only: none)
  finally have present: "key \<in> fst ` set ?dm \<longleftrightarrow> ?top \<noteq> []" .
  have t5: "?top = take 5 (sortedDistributions (distInput detailedData key))"
    by (simp add: topDistributions_def)
  have len: "length ?top \<le> 5"
    by (simp add: topDistributions_def)
  have stab: "\<forall>c. filter (\<lambda>e. speciesCount e = c) (sortedDistributions (distInput detailedData key))
            = filter (\<lambda>e. speciesCount e = c) (map distProjection (distInput detailedData key))"
    by (simp add: sortedDistributions_stable)
  have ln: "length (sortedDistributions (distInput detailedData key))
         = length (distInput detailedData key)"
    by (simp add: sortedDistributions_def)
  show ?thesis
    by (rule exI [of _ ?dm])
      (intro conjI dm look present t5 len sortedDistributions_sorted stab ln)
qed

theorem flattenPlantData_distributions_witness:
  "\<exists>flat dm.
     flattenPlantData (JObj [(''id'', JNum 1)])
       (JObj [(''main_species'', JObj [(''distributions'', JObj [(''native'', JArr [
          JObj [(''name'', JStr ''Europe''), (''species_count'', JNum 50), (''slug'', JStr ''eur'')],
          JObj [(''name'', JStr ''America''), (''species_count'', JNum 100)],
          JObj [(''name'', JStr ''Xanadu'')],
          JObj [(''name'', JStr ''Yemen''), (''species_count'', JNum 50)],
          JObj [(''name'', JStr ''Zambia''), (''species_count'', JNull)],
          JObj [(''name'', JStr ''Wales''), (''species_count'', JNum 70)],
          JObj [(''name'', JStr ''Vanuatu''), (''species_count'', JNum 50)]])])])]) = Inr flat
     \<and> rd flat ''distributions'' = JObj dm
     \<and> map_of dm ''native'' = Some (JArr [
          JObj [(''name'', JStr ''America''), (''species_count'', JNum 100)],
          JObj [(''name'', JStr ''Wales''), (''species_count'', JNum 70)],
          JObj [(''name'', JStr ''Europe''), (''species_count'', JNum 50)],
          JObj [(''name'', JStr ''Yemen''), (''species_count'', JNum 50)],
          JObj [(''name'', JStr ''Vanuatu''), (''species_count'', JNum 50)]])
     \<and> ''native'' \<in> fst ` set dm"
proof -
  let ?p = "JObj [(''id'', JNum 1)]"
  let ?ds = "[
          JObj [(''name'', JStr ''Europe''), (''species_count'', JNum 50), (''slug'', JStr ''eur'')],
          JObj [(''name'', JStr ''America''), (''species_count'', JNum 100)],
          JObj [(''name'', JStr ''Xanadu'')],
          JObj [(''name'', JStr ''Yemen''), (''species_count'', JNum 50)],
          JObj [(''name'', JStr ''Zambia''), (''species_count'', JNull)],
          JObj [(''name'', JStr ''Wales''), (''species_count'', JNum 70)],
          JObj [(''name'', JStr ''Vanuatu''), (''species_count'', JNum 50)]]"
  let ?d = "JObj [(''main_species'', JObj [(''distributions'', JObj [(''native'', JArr ?ds)])])]"
  have input: "distInput ?d ''native'' = ?ds"
    by (simp add: distInput_def distList_def distributionsOf_def mainSpeciesOf_def orElse_def)
  have "distInput ?d ''introduced'' = []"
    by (simp add: distInput_def distList_def distributionsOf_def mainSpeciesOf_def orElse_def)
  with input have "nullFreeDistributions ?d"
    by (simp add: nullFreeDistributions_def)
  moreover have "nullFreeImages ?d"
    by (simp add: nullFreeImages_def imagesOf_def mainSpeciesOf_def orElse_def)
  ultimately obtain flat where flat: "flattenPlantData ?p ?d = Inr flat"
    using flattenPlantData_ok [of ?p ?d] by auto
  have counted: "\<forall>e\<in>set (distInput ?d ''native''). countedEntry e"
    unfolding input by (simp add: countedEntry_def)
  have top: "topDistributions ?ds = [
          JObj [(''name'', JStr ''America''), (''species_count'', JNum 100)],
          JObj [(''name'', JStr ''Wales''), (''species_count'', JNum 70)],
          JObj [(''name'', JStr ''Europe''), (''species_count'', JNum 50)],
          JObj [(''name'', JStr ''Yemen''), (''species_count'', JNum 50)],
          JObj [(''name'', JStr ''Vanuatu''), (''species_count'', JNum 50)]]"
    by (simp add: topDistributions_def sortedDistributions_def distProjection_def speciesCount_def)
  from flattenPlantData_distributions [OF flat _ counted] flat show ?thesis
    unfolding input top by (simp del: rd.simps) blast
qed






text \<open>
  Claim C9, as amended.  Whenever \<open>flattenPlantData\<close> returns, the returned record has
  exactly the keys of the flattening rule set, each once: no key is omitted, whatever
  the inputs hold.  Where the source path of a key is missing, a field copied from the
  summary or from \<open>main_species\<close> (\<open>genus\<close> and \<open>family\<close> included) has the value
  \<open>undefined\<close>; the four collection fields have their own defaults instead:
  \<open>synonyms\<close> is the empty sequence, \<open>images\<close> and \<open>distributions\<close> are empty mappings
  and \<open>source\<close> is \<open>null\<close>.
\<close>

theorem flattenPlantData_keys:
  assumes "flattenPlantData paginatedData detailedData = Inr flat"
  shows "\<exists>kvs. flat = JObj kvs
     \<and> set (map fst kvs) = set ruleKeys \<and> distinct (map fst kvs)
     \<and> (\<forall>k\<in>set summaryKeys. follow paginatedData [k] = None \<longrightarrow> rd flat k = JUndefined)
     \<and> (\<forall>(k, path)\<in>set detailTable.
           follow detailedData (''main_species'' # path) = None \<longrightarrow> rd flat k = JUndefined)
     \<and> (follow detailedData [''main_species'', ''genus''] = None \<longrightarrow> rd flat ''genus'' = JUndefined)
     \<and> (follow detailedData [''main_species'', ''family''] = None \<longrightarrow> rd flat ''family'' = JUndefined)
     \<and> (follow paginatedData [''synonyms''] = None \<longrightarrow> rd flat ''synonyms'' = JArr [])
     \<and> (follow detailedData [''main_species'', ''images''] = None \<longrightarrow> rd flat ''images'' = JObj [])
     \<and> (follow detailedData [''main_species'', ''distributions''] = None
          \<longrightarrow> rd flat ''distributions'' = JObj [])
     \<and> (follow detailedData [''main_species'', ''sources''] = None \<longrightarrow> rd flat ''source'' = JNull)"
proof -
  let ?td = "distEntry ''native'' (map distProjection (distInput detailedData ''native''))
            @ distEntry ''introduced'' (map distProjection (distInput detailedData ''introduced''))"
  from flattenPlantData_Inr [OF assms] obtain ti where
    ti: "trimImages (entries (imagesOf detailedData)) [] = Inr ti"
    and flat: "flat = JObj (assignAll (flatAssignments paginatedData (mainSpeciesOf detailedData) ti ?td) [])"
    by blast
  let ?kvs = "assignAll (flatAssignments paginatedData (mainSpeciesOf detailedData) ti ?td) []"
  have keys: "set (map fst ?kvs) = set ruleKeys" and dist: "distinct (map fst ?kvs)"
    using flat_keys by blast+
  have summ: "\<forall>k\<in>set summaryKeys. follow paginatedData [k] = None \<longrightarrow> rd flat k = JUndefined"
    unfolding flat by (simp add: rd_flat_summary missing_summary_key del: rd.simps follow.simps)
  have det: "\<forall>(k, path)\<in>set detailTable.
           follow detailedData (''main_species'' # path) = None \<longrightarrow> rd flat k = JUndefined"
    unfolding flat
    by (auto simp: rd_flat_table missing_detail_path simp del: rd.simps follow.simps readPath.simps)
  have gen: "follow detailedData [''main_species'', ''genus''] = None \<longrightarrow> rd flat ''genus'' = JUndefined"
    unfolding flat
    by (auto simp: rd_flat_genus missing_ms_attribute nameOf_default simp del: rd.simps follow.simps)
  have fam: "follow detailedData [''main_species'', ''family''] = None \<longrightarrow> rd flat ''family'' = JUndefined"
    unfolding flat
    by (auto simp: rd_flat_family missing_ms_attribute nameOf_default simp del: rd.simps follow.simps)
  have syn: "follow paginatedData [''synonyms''] = None \<longrightarrow> rd flat ''synonyms'' = JArr []"
    unfolding flat
    by (auto simp: rd_flat_synonyms missing_summary_key orElse_def topSynonyms_def
        simp del: rd.simps follow.simps)
  have img: "follow detailedData [''main_species'', ''images''] = None \<longrightarrow> rd flat ''images'' = JObj []"
    unfolding flat using ti
    by (auto simp: rd_flat_images dest!: missing_ms_attribute images_default simp del: rd.simps follow.simps)
  have dis: "follow detailedData [''main_species'', ''distributions''] = None
          \<longrightarrow> rd flat ''distributions'' = JObj []"
    unfolding flat
    by (auto simp: rd_flat_distributions dest!: missing_ms_attribute distributions_default
        simp del: rd.simps follow.simps)
  have src: "follow detailedData [''main_species'', ''sources''] = None \<longrightarrow> rd flat ''source'' = JNull"
    unfolding flat
    by (auto simp: rd_flat_source dest!: missing_ms_attribute source_default
        simp del: rd.simps follow.simps)
  show ?thesis
    by (rule exI [of _ ?kvs]) (intro conjI flat keys dist summ det gen fam syn img dis src)
qed

text \<open>
  The claim as stated fails on the value of a collection field whose source path is
  missing: with no \<open>sources\<close> at all, \<open>source\<close> is \<open>null\<close>, not \<open>undefined\<close>.
\<close>

theorem flattenPlantData_source_counterexample:
  "follow (JObj []) [''main_species'', ''sources''] = None
   \<and> resultField (flattenPlantData (JObj []) (JObj [])) ''source'' = Some JNull
   \<and> resultField (flattenPlantData (JObj []) (JObj [])) ''source'' \<noteq> Some JUndefined"
proof -
  have "flattenPlantData (JObj []) (JObj [])
      = Inr (JObj (assignAll (flatAssignments (JObj []) (JObj []) [] []) []))"
    by (simp add: flattenPlantData_unfold imagesOf_def distributionsOf_def mainSpeciesOf_def
        orElse_def trimDistributions_two distList_def)
  then show ?thesis
    by (simp only: resultField_def sum.case rd_flat_source)
      (simp add: orElse_def findFirstSourceWithUrl_def)
qed

theorem flattenPlantData_keys_witness:
  "\<exists>flat kvs.
     flattenPlantData (JObj [(''id'', JNum 7)])
       (JObj [(''main_species'', JObj [(''growth'', JObj [(''light'', JNum 5)])])]) = Inr flat
     \<and> flat = JObj kvs \<and> set (map fst kvs) = set ruleKeys \<and> distinct (map fst kvs)
     \<and> rd flat ''slug'' = JUndefined
     \<and> rd flat ''growth_spread_cm'' = JUndefined
     \<and> rd flat ''genus'' = JUndefined
     \<and> rd flat ''synonyms'' = JArr []
     \<and> rd flat ''images'' = JObj []
     \<and> rd flat ''distributions'' = JObj []
     \<and> rd flat ''source'' = JNull"
proof -
  let ?p = "JObj [(''id'', JNum 7)]"
  let ?d = "JObj [(''main_species'', JObj [(''growth'', JObj [(''light'', JNum 5)])])]"
  have "nullFreeImages ?d"
    by (simp add: nullFreeImages_def imagesOf_def mainSpeciesOf_def orElse_def)
  moreover have "nullFreeDistributions ?d"
    by (simp add: nullFreeDistributions_def distInput_def distList_def distributionsOf_def
        mainSpeciesOf_def orElse_def)
  ultimately obtain flat where flat: "flattenPlantData ?p ?d = Inr flat"
    using flattenPlantData_ok [of ?p ?d] by auto
  have k1: "''slug'' \<in> set summaryKeys"
    by (simp add: summaryKeys_def)
  have k2: "(''growth_spread_cm'', [''growth'', ''spread'', ''cm'']) \<in> set detailTable"
    by (simp add: detailTable_def growthTable_def)
  have f1: "follow ?p [''slug''] = None"
    and f2: "follow ?d (''main_species'' # [''growth'', ''spread'', ''cm'']) = None"
    and f3: "follow ?d [''main_species'', ''genus''] = None"
    and f4: "follow ?p [''synonyms''] = None"
    and f5: "follow ?d [''main_species'', ''images''] = None"
    and f6: "follow ?d [''main_species'', ''distributions''] = None"
    and f7: "follow ?d [''main_species'', ''sources''] = None"
    by simp_all
  from flattenPlantData_keys [OF flat] k1 k2 f1 f2 f3 f4 f5 f6 f7 flat show ?thesis
    by (fastforce simp del: rd.simps follow.simps)
qed


section \<open>Enrichment\<close>

lemma enrichLoop_map:
  "\<forall>p\<in>set plants. \<not> nullish p \<Longrightarrow>
     enrichLoop e dryRun plants acc =
       Inr (acc @ map (\<lambda>p. enrichRecord e dryRun p (rd p ''id''))
                    (filter (\<lambda>p. truthy (rd p ''id'')) plants))"
  by (induction plants arbitrary: acc) simp_all

lemma enrichPlantData_map:
  "\<forall>p\<in>set plants. \<not> nullish p \<Longrightarrow>
     enrichPlantData e plants dryRun =
       Inr (map (\<lambda>p. enrichRecord e dryRun p (rd p ''id''))
              (filter (\<lambda>p. truthy (rd p ''id'')) plants))"
  by (cases plants) (simp_all add: enrichPlantData_def enrichLoop_map del: enrichLoop.simps)

lemma enrichRecord_unusable:
  "detailUnusable e plant \<Longrightarrow> enrichRecord e False plant (rd plant ''id'') = plant"
  by (auto simp: detailUnusable_def enrichRecord_def getProp_def split: sum.splits)

lemma filter_all_length:
  "length (filter P xs) = length xs \<longleftrightarrow> (\<forall>x\<in>set xs. P x)"
  by (metis filter_id_conv length_filter_less less_irrefl)


text \<open>
  Claim C10.  On every list of records, \<open>enrichPlantData\<close> leaves out each record whose
  \<open>id\<close> is absent or falsy: the output holds, in order, one record (the enriched one, or
  the summary itself) for each input record with a truthy \<open>id\<close> and nothing for the
  others.  So the output is never longer than the input, and it has one record per
  input record exactly when every input record has a truthy \<open>id\<close>.
\<close>

theorem enrichPlantData_skips_without_id:
  assumes "\<forall>p\<in>set plants. \<not> nullish p"
  shows "\<exists>out. enrichPlantData e plants dryRun = Inr out
     \<and> out = map (\<lambda>p. enrichRecord e dryRun p (rd p ''id''))
               (filter (\<lambda>p. truthy (rd p ''id'')) plants)
     \<and> length out \<le> length plants
     \<and> (length out = length plants \<longleftrightarrow> (\<forall>p\<in>set plants. truthy (rd p ''id'')))"
  using assms by (simp add: enrichPlantData_map filter_all_length del: rd.simps)

theorem enrichPlantData_skips_without_id_witness:
  "enrichPlantData
       \<lparr>getPlants = (\<lambda>n. Inl FetchError), getPlant = (\<lambda>i. Inl FetchError),
        diskAccepts = (\<lambda>f. True)\<rparr>
       [JObj [(''id'', JNum 5)], JObj [(''slug'', JStr ''oak'')],
        JObj [(''id'', JNum 0)], JObj [(''id'', JStr ''fern'')]] False
     = Inr [JObj [(''id'', JNum 5)], JObj [(''id'', JStr ''fern'')]]"
proof -
  let ?e = "\<lparr>getPlants = (\<lambda>n. Inl FetchError), getPlant = (\<lambda>i. Inl FetchError),
        diskAccepts = (\<lambda>f. True)\<rparr>"
  let ?plants = "[JObj [(''id'', JNum 5)], JObj [(''slug'', JStr ''oak'')],
       JObj [(''id'', JNum 0)], JObj [(''id'', JStr ''fern'')]]"
  have "\<forall>p\<in>set ?plants. \<not> nullish p"
    by simp
  from enrichPlantData_skips_without_id [OF this, of ?e False] show ?thesis
    by (simp add: enrichRecord_def)
qed


text \<open>
  Claim C6.  During enrichment (not a dry run), a summary record whose detail fetch fails
  or answers without a usable payload is put into the output unmodified, at its place,
  and the records behind it are processed as usual.  When every record of the page has a
  truthy \<open>id\<close>, the output has as many records as the page and each such record sits at
  its own index; with a page of three records of which one detail fetch fails, that is
  three records, the failing one equal to its summary.  In general the output is the
  output for the records before it, the record itself, and the output for the records
  after it.
\<close>

theorem enrichPlantData_fallback:
  "((\<forall>p\<in>set plants. \<not> nullish p \<and> truthy (rd p ''id'')) \<longrightarrow>
     (\<exists>out. enrichPlantData e plants False = Inr out \<and> length out = length plants
        \<and> (\<forall>i<length plants. detailUnusable e (plants ! i) \<longrightarrow> out ! i = plants ! i)))
   \<and> ((\<forall>p\<in>set (before @ plant # after). \<not> nullish p) \<and> truthy (rd plant ''id'')
        \<and> detailUnusable e plant \<longrightarrow>
     (\<exists>outBefore outAfter. enrichPlantData e before False = Inr outBefore
        \<and> enrichPlantData e after False = Inr outAfter
        \<and> enrichPlantData e (before @ plant # after) False = Inr (outBefore @ plant # outAfter)))"
proof (intro conjI impI)
  assume a: "\<forall>p\<in>set plants. \<not> nullish p \<and> truthy (rd p ''id'')"
  then have "filter (\<lambda>p. truthy (rd p ''id'')) plants = plants"
    by (simp del: rd.simps)
  with a have "enrichPlantData e plants False
      = Inr (map (\<lambda>p. enrichRecord e False p (rd p ''id'')) plants)"
    by (simp add: enrichPlantData_map del: rd.simps)
  then show "\<exists>out. enrichPlantData e plants False = Inr out \<and> length out = length plants
        \<and> (\<forall>i<length plants. detailUnusable e (plants ! i) \<longrightarrow> out ! i = plants ! i)"
    by (simp add: enrichRecord_unusable del: rd.simps)
next
  assume b: "(\<forall>p\<in>set (before @ plant # after). \<not> nullish p) \<and> truthy (rd plant ''id'')
        \<and> detailUnusable e plant"
  then have "\<forall>p\<in>set before. \<not> nullish p" "\<forall>p\<in>set after. \<not> nullish p"
    by simp_all
  with b show "\<exists>outBefore outAfter. enrichPlantData e before False = Inr outBefore
        \<and> enrichPlantData e after False = Inr outAfter
        \<and> enrichPlantData e (before @ plant # after) False = Inr (outBefore @ plant # outAfter)"
    by (simp add: enrichPlantData_map enrichRecord_unusable del: rd.simps)
qed

theorem enrichPlantData_fallback_witness:
  "\<exists>out. enrichPlantData
       \<lparr>getPlants = (\<lambda>n. Inl FetchError),
        getPlant = (\<lambda>i. if i = JNum 2 then Inl FetchError
           else Inr (JObj [(''data'', JObj [(''main_species'', JObj [(''genus'', JStr ''Quercus'')])])])),
        diskAccepts = (\<lambda>f. True)\<rparr>
       [JObj [(''id'', JNum 1)], JObj [(''id'', JNum 2), (''slug'', JStr ''oak'')],
        JObj [(''id'', JNum 3)]] False = Inr out
     \<and> length out = 3
     \<and> out ! 1 = JObj [(''id'', JNum 2), (''slug'', JStr ''oak'')]"
proof -
  let ?e = "\<lparr>getPlants = (\<lambda>n. Inl FetchError),
        getPlant = (\<lambda>i. if i = JNum 2 then Inl FetchError
           else Inr (JObj [(''data'', JObj [(''main_species'', JObj [(''genus'', JStr ''Quercus'')])])])),
        diskAccepts = (\<lambda>f. True)\<rparr>"
  let ?plants = "[JObj [(''id'', JNum 1)], JObj [(''id'', JNum 2), (''slug'', JStr ''oak'')],
        JObj [(''id'', JNum 3)]]"
  have ids: "\<forall>p\<in>set ?plants. \<not> nullish p \<and> truthy (rd p ''id'')"
    by simp
  have bad: "detailUnusable ?e (?plants ! 1)"
    by (simp add: detailUnusable_def)
  have "(1::nat) < length ?plants"
    by simp
  with enrichPlantData_fallback [of ?plants ?e] ids bad
  obtain out where "enrichPlantData ?e ?plants False = Inr out" "length out = length ?plants"
      "out ! 1 = ?plants ! 1"
    by blast
  then show ?thesis
    by simp
qed


section \<open>The pagination loop\<close>

lemma numToString_1: "numToString 1 = ''1''"
  by (simp add: numToString_def digit_def)




text \<open>
  Claim C3 fails on the code.  A first page of two plants followed by a page with empty
  \<open>data\<close> ends the loop at the \<open>No data returned\<close> branch, which breaks without a
  write: nothing is written and the two trimmed records stay in the open batch.  When the
  fetch of the second page throws instead, the \<open>catch\<close> branch does write them, as
  \<open>plants_pages_1-1.json\<close>.
\<close>

theorem fetchPlants_empty_page_drops_batch:
  "fetchPlants
     \<lparr>getPlants = (\<lambda>n.
          if n = 1 then Inr (JObj [(''data'', JArr [JObj a, JObj b]),
                                   (''links'', JObj [(''next'', JStr ''/api/v1/plants?page=2'')])])
          else Inr (JObj [(''data'', JArr []), (''links'', JObj [(''next'', JNull)])])),
      getPlant = g, diskAccepts = (\<lambda>file. True)\<rparr>
     \<lparr>optPlants = True, optEnrichment = False, optFormat = ''json'', optDryRun = False,
      optPages = None, optStartPage = 1\<rparr>
     (Suc (Suc fuel))
   = Some (Returned,
       \<lparr>page = 2, pagesFetched = 1,
        batchData = [trimPlant 5 (JObj a), trimPlant 5 (JObj b)],
        batchStartPage = 1,
        written = []\<rparr>)
   \<and> fetchPlants
     \<lparr>getPlants = (\<lambda>n.
          if n = 1 then Inr (JObj [(''data'', JArr [JObj a, JObj b]),
                                   (''links'', JObj [(''next'', JStr ''/api/v1/plants?page=2'')])])
          else Inl FetchError),
      getPlant = g, diskAccepts = (\<lambda>file. True)\<rparr>
     \<lparr>optPlants = True, optEnrichment = False, optFormat = ''json'', optDryRun = False,
      optPages = None, optStartPage = 1\<rparr>
     (Suc (Suc fuel))
   = Some (Returned,
       \<lparr>page = 2, pagesFetched = 1,
        batchData = [trimPlant 5 (JObj a), trimPlant 5 (JObj b)],
        batchStartPage = 1,
        written = [(''plants_pages_1-1.json'', ''json'',
                    [trimPlant 5 (JObj a), trimPlant 5 (JObj b)])]\<rparr>)"
  by (simp add: fetchPlants_def pageLimitReached_def tryPage_def afterPage_def batchSize_def
      trimPlantSynonyms_def saveBatch_def batchFile_def writeToFile_def enrichedSuffix_def
      getFileExtension_def numToString_1 Let_def)

end
